theory Spec2Isabelle
  imports Complex_Main "HOL-Library.Sublist" "HOL-Library.Multiset"
begin

section \<open>Python values used by butterfly\<close>

text \<open>
  Exceptions of the Python source, as values. The carried string is the message where the
  source builds one.
\<close>

datatype exn =
    AssertionError string
  | OSError string
  | IOError string
  | NameError string
  | ValueError string
  | TypeError string
  | OverflowError string
  | Exception string

text \<open>\<open>str(e)\<close> of an exception: its message.\<close>

fun err_str :: "exn \<Rightarrow> string" where
  "err_str (AssertionError m) = m"
| "err_str (OSError m) = m"
| "err_str (IOError m) = m"
| "err_str (NameError m) = m"
| "err_str (ValueError m) = m"
| "err_str (TypeError m) = m"
| "err_str (OverflowError m) = m"
| "err_str (Exception m) = m"

subsection \<open>Byte strings: \<open>isdigit\<close>, \<open>int\<close>, \<open>str\<close>, \<open>endswith\<close>, \<open>replace\<close>\<close>

text \<open>
  The source is Python 2: a folder name returned by \<open>os.listdir\<close> is a byte string, here
  \<^typ>\<open>string\<close>. \<open>name.isdigit()\<close> holds for a non-empty string of decimal digits.
\<close>

definition is_digit :: "char \<Rightarrow> bool" where
  "is_digit c = (c \<in> set ''0123456789'')"

definition py_isdigit :: "string \<Rightarrow> bool" where
  "py_isdigit s = (s \<noteq> [] \<and> list_all is_digit s)"

definition digit_val :: "char \<Rightarrow> nat" where
  "digit_val c = of_char c - 48"

definition digit_char :: "nat \<Rightarrow> char" where
  "digit_char d = ''0123456789'' ! d"

text \<open>
  \<open>int(name)\<close> is only ever applied under the guard \<open>name.isdigit()\<close>, where it cannot
  raise and reads the decimal digits left to right. Python integers are unbounded.
\<close>

definition digits_val :: "string \<Rightarrow> nat" where
  "digits_val s = foldl (\<lambda>acc c. 10 * acc + digit_val c) 0 s"

definition py_int :: "string \<Rightarrow> int" where
  "py_int s = int (digits_val s)"

function str_nat :: "nat \<Rightarrow> string" where
  "str_nat n = (if n < 10 then [digit_char n] else str_nat (n div 10) @ [digit_char (n mod 10)])"
  by pat_completeness auto
termination
  by (relation "measure (\<lambda>n. n)") auto

declare str_nat.simps [simp del]

text \<open>\<open>str(i)\<close> of an integer: decimal digits without leading zeros, a sign if negative.\<close>

definition py_str :: "int \<Rightarrow> string" where
  "py_str i = (if i < 0 then CHR ''-'' # str_nat (nat (- i)) else str_nat (nat i))"

definition py_endswith :: "string \<Rightarrow> string \<Rightarrow> bool" where
  "py_endswith s suf = suffix suf s"

text \<open>
  \<open>f.replace('.org', '')\<close>: every non-overlapping occurrence of the four characters is
  removed, scanning from the left.
\<close>

fun replace_org :: "string \<Rightarrow> string" where
  "replace_org [] = []"
| "replace_org (c # cs) =
     (if take 4 (c # cs) = ''.org'' then replace_org (drop 3 cs) else c # replace_org cs)"

section \<open>The project directory\<close>

text \<open>
  A file-system node is a file with its content or a directory with its entries. The
  project directory \<open>self.projectDir\<close> is the list of its entries; \<open>os.listdir\<close> returns
  their names in the order of the list (the order the operating system happens to give).
\<close>

datatype node = File string | Dir "(string \<times> node) list"

type_synonym dir = "(string \<times> node) list"

definition listdir :: "dir \<Rightarrow> string list" where
  "listdir d = map fst d"

text \<open>\<open>os.path.isdir(os.path.join(self.projectDir, name))\<close>\<close>

definition isdir :: "dir \<Rightarrow> string \<Rightarrow> bool" where
  "isdir d name = (case map_of d name of Some (Dir _) \<Rightarrow> True | _ \<Rightarrow> False)"

definition has_polyMesh :: "node \<Rightarrow> bool" where
  "has_polyMesh x = (case x of Dir cs \<Rightarrow> isdir cs ''polyMesh'' | File _ \<Rightarrow> False)"

text \<open>\<open>os.path.isdir(os.path.join(self.projectDir, name, 'polyMesh'))\<close>\<close>

definition isdir_polyMesh :: "dir \<Rightarrow> string \<Rightarrow> bool" where
  "isdir_polyMesh d name = (case map_of d name of Some x \<Rightarrow> has_polyMesh x | None \<Rightarrow> False)"

section \<open>Numbered folders: \<open>Case.getSnappyHexMeshFolders\<close>, \<open>Case.getResultFolders\<close>\<close>

definition getSnappyHexMeshFolders :: "dir \<Rightarrow> string list" where
  "getSnappyHexMeshFolders d =
     map py_str (sort (map py_int
       (filter (\<lambda>name. py_isdigit name \<and> isdir_polyMesh d name) (listdir d))))"

definition getResultFolders :: "dir \<Rightarrow> string list" where
  "getResultFolders d =
     map py_str (sort (map py_int
       (filter (\<lambda>name. name \<noteq> ''0'' \<and> py_isdigit name \<and> isdir d name \<and>
                        \<not> isdir_polyMesh d name) (listdir d))))"

text \<open>
  A decimal name as \<open>str\<close> writes it: digits only, no leading zero unless it is \<open>0\<close>.
\<close>

definition canonical :: "string \<Rightarrow> bool" where
  "canonical s = (py_isdigit s \<and> (hd s \<noteq> CHR ''0'' \<or> s = ''0''))"

text \<open>Every name of the listing that is a number is written the way \<open>str\<close> writes it.\<close>

definition numbered_names_canonical :: "dir \<Rightarrow> bool" where
  "numbered_names_canonical d =
     list_all (\<lambda>name. py_isdigit name \<longrightarrow> canonical name) (listdir d)"

text \<open>
  The names the two listings select, before they are converted and sorted: the conditions
  are those of the two comprehensions.
\<close>

definition mesh_folder_names :: "dir \<Rightarrow> string list" where
  "mesh_folder_names d =
     filter (\<lambda>name. py_isdigit name \<and> isdir_polyMesh d name) (listdir d)"

definition result_folder_names :: "dir \<Rightarrow> string list" where
  "result_folder_names d =
     filter (\<lambda>name. name \<noteq> ''0'' \<and> py_isdigit name \<and> isdir d name \<and>
                      \<not> isdir_polyMesh d name) (listdir d)"


section \<open>Freezing and restoring mesh snapshots: \<open>Case.renameSnappyHexMeshFolders\<close>\<close>

text \<open>
  The source calls \<open>os.rename\<close> with no check of its own, so what happens when the
  destination exists is what the platform does. Two things differ between platforms. On
  Windows \<open>os.rename\<close> raises \<open>OSError\<close> whenever the destination exists; on POSIX it
  replaces an existing empty directory by a directory and an existing file by a file,
  without a word, and raises for the other combinations. And the file system compares
  names exactly, or without regard to case (NTFS, and the default on macOS).
\<close>

record platform =
  case_insensitive :: bool
  replaces_existing :: bool

definition windows :: platform where
  "windows = \<lparr>case_insensitive = True, replaces_existing = False\<rparr>"

definition posix :: platform where
  "posix = \<lparr>case_insensitive = False, replaces_existing = True\<rparr>"

definition fold_case :: "char \<Rightarrow> char" where
  "fold_case c =
     (case map_of (zip ''ABCDEFGHIJKLMNOPQRSTUVWXYZ'' ''abcdefghijklmnopqrstuvwxyz'') c of
        Some l \<Rightarrow> l
      | None \<Rightarrow> c)"

definition name_key :: "platform \<Rightarrow> string \<Rightarrow> string" where
  "name_key pf name = (if case_insensitive pf then map fold_case name else name)"

text \<open>Two names that the file system takes for the same entry.\<close>

definition same_name :: "platform \<Rightarrow> string \<Rightarrow> string \<Rightarrow> bool" where
  "same_name pf a b = (name_key pf a = name_key pf b)"

text \<open>What a POSIX rename of the first node replaces: an empty directory, or a file by a file.\<close>

fun replaceable :: "node \<Rightarrow> node \<Rightarrow> bool" where
  "replaceable (Dir cs) (Dir []) = True"
| "replaceable (File c) (File c') = True"
| "replaceable x y = False"

definition ren :: "string \<Rightarrow> string \<Rightarrow> string \<times> node \<Rightarrow> string \<times> node" where
  "ren src dst = (\<lambda>(n, x). if n = src then (dst, x) else (n, x))"

text \<open>
  \<open>os.rename(os.path.join(self.projectDir, src), os.path.join(self.projectDir, dst))\<close>.
  The source is looked up under the name given, which is a name of the listing or the
  decimal form of a number. A destination \<open>''\<close>, \<open>.\<close> or \<open>..\<close> joins to the project
  directory itself or its parent, which exist and are not empty. The entries in the way are
  those, other than the source, whose name the file system takes for the destination. The
  renamed entry keeps its place in the listing.
\<close>

definition os_rename :: "platform \<Rightarrow> dir \<Rightarrow> string \<Rightarrow> string \<Rightarrow> exn + dir" where
  "os_rename pf d src dst =
     (case map_of d src of
        None \<Rightarrow> Inl (OSError ''No such file or directory'')
      | Some x \<Rightarrow>
          if dst \<in> {[], ''.'', ''..''} then Inl (OSError ''Directory not empty'')
          else
            (let in_the_way = filter (\<lambda>(n, y). n \<noteq> src \<and> same_name pf n dst) d
             in if in_the_way = [] then Inr (map (ren src dst) d)
                else if replaces_existing pf \<and> list_all (\<lambda>(n, y). replaceable x y) in_the_way
                  then Inr (map (ren src dst)
                         (filter (\<lambda>(n, y). n = src \<or> \<not> same_name pf n dst) d))
                else Inl (OSError ''Cannot create a file when that file already exists'')))"

text \<open>
  The branch \<open>add=False\<close>. The generator \<open>_folders\<close> reads \<open>os.listdir\<close> once, when it is
  created, and tests each name when the loop reaches it, on the directory as it is then.
  An error of \<open>os.rename\<close> is not caught here.
\<close>

fun rename_back :: "platform \<Rightarrow> string list \<Rightarrow> dir \<Rightarrow> exn option \<times> dir" where
  "rename_back pf [] d = (None, d)"
| "rename_back pf (f # fs) d =
     (if py_endswith f ''.org'' \<and> isdir_polyMesh d f
      then (case os_rename pf d f (replace_org f) of
              Inl e \<Rightarrow> (Some e, d)
            | Inr d' \<Rightarrow> rename_back pf fs d')
      else rename_back pf fs d)"

text \<open>The branch \<open>add=True\<close>: an error of \<open>os.rename\<close> is raised again as \<open>Exception\<close>.\<close>

fun rename_add :: "platform \<Rightarrow> string list \<Rightarrow> dir \<Rightarrow> exn option \<times> dir" where
  "rename_add pf [] d = (None, d)"
| "rename_add pf (f # fs) d =
     (case os_rename pf d f (f @ ''.org'') of
        Inl e \<Rightarrow> (Some (Exception (''Failed to rename snappyHexMesh folders: '' @ err_str e)), d)
      | Inr d' \<Rightarrow> rename_add pf fs d')"

definition renameSnappyHexMeshFolders :: "platform \<Rightarrow> dir \<Rightarrow> bool \<Rightarrow> exn option \<times> dir" where
  "renameSnappyHexMeshFolders pf d add =
     (if \<not> add then rename_back pf (listdir d) d
      else rename_add pf (getSnappyHexMeshFolders d) d)"

text \<open>
  No name of the listing ends in \<open>.org\<close>, as the file system compares names: nothing is
  frozen yet, and no name is in the way of a frozen one.
\<close>

definition no_frozen_names :: "platform \<Rightarrow> dir \<Rightarrow> bool" where
  "no_frozen_names pf d =
     list_all (\<lambda>name. \<not> py_endswith (name_key pf name) ''.org'') (listdir d)"

text \<open>The two renamings of all selected entries, entry by entry.\<close>

definition frozen_entry :: "string set \<Rightarrow> string \<times> node \<Rightarrow> string \<times> node" where
  "frozen_entry M = (\<lambda>(n, x). if n \<in> M then (n @ ''.org'', x) else (n, x))"

definition is_frozen :: "string \<times> node \<Rightarrow> bool" where
  "is_frozen = (\<lambda>(n, x). py_endswith n ''.org'' \<and> has_polyMesh x)"

definition restored_entry :: "string \<times> node \<Rightarrow> string \<times> node" where
  "restored_entry e = (if is_frozen e then (replace_org (fst e), snd e) else e)"

text \<open>The names the frozen entries of a listing are restored to, in order.\<close>

definition targets :: "dir \<Rightarrow> string list" where
  "targets s = map (\<lambda>e. replace_org (fst e)) (filter is_frozen s)"

text \<open>The directory after freezing: every mesh snapshot carries \<open>.org\<close>, nothing else changed.\<close>

definition frozen :: "dir \<Rightarrow> dir" where
  "frozen d = map (frozen_entry (set (mesh_folder_names d))) d"

section \<open>Removing folders: \<open>Case.purge\<close> and the methods it calls\<close>

text \<open>
  The state the removal methods act on: the entries of the project directory, the paths
  (relative to the project directory, one component per element) that the operating system
  refuses to delete, and the lines printed so far.
\<close>

record world =
  entries :: dir
  locked :: "string list list"
  stdout :: "string list"

text \<open>\<open>rmtree(os.path.join(self.projectDir, name))\<close>; a refused removal leaves the folder.\<close>

definition rmtree :: "world \<Rightarrow> string \<Rightarrow> exn + world" where
  "rmtree w name =
     (if name \<notin> set (listdir (entries w)) then Inl (OSError ''The system cannot find the path specified'')
      else if \<not> isdir (entries w) name then Inl (OSError ''The directory name is invalid'')
      else if [name] \<in> set (locked w) then Inl (OSError ''Access is denied'')
      else Inr (w\<lparr>entries := filter (\<lambda>(n, x). n \<noteq> name) (entries w)\<rparr>))"

definition print :: "string \<Rightarrow> world \<Rightarrow> world" where
  "print line w = w\<lparr>stdout := stdout w @ [line]\<rparr>"

text \<open>
  The loop of \<open>removeSnappyHexMeshFolders\<close>. Its loop variable is \<open>f\<close>, and its handler
  formats the message with \<open>_f\<close>, a name bound neither in the method nor in the module:
  evaluating the handler raises \<open>NameError\<close>, which leaves the loop and the method.
\<close>

fun remove_snappy_loop :: "string list \<Rightarrow> world \<Rightarrow> exn option \<times> world" where
  "remove_snappy_loop [] w = (None, w)"
| "remove_snappy_loop (f # fs) w =
     (case rmtree w f of
        Inr w' \<Rightarrow> remove_snappy_loop fs w'
      | Inl e \<Rightarrow> (Some (NameError (''global name '' @ [CHR 0x27] @ ''_f'' @ [CHR 0x27] @ '' is not defined'')), w))"

definition removeSnappyHexMeshFolders :: "platform \<Rightarrow> world \<Rightarrow> exn option \<times> world" where
  "removeSnappyHexMeshFolders pf w =
     (case renameSnappyHexMeshFolders pf (entries w) False of
        (Some e, d) \<Rightarrow> (Some e, w\<lparr>entries := d\<rparr>)
      | (None, d) \<Rightarrow> remove_snappy_loop (getSnappyHexMeshFolders d) (w\<lparr>entries := d\<rparr>))"

text \<open>The loop of \<open>removeResultFolders\<close>: the handler prints and the loop goes on.\<close>

fun remove_result_loop :: "string list \<Rightarrow> world \<Rightarrow> exn option \<times> world" where
  "remove_result_loop [] w = (None, w)"
| "remove_result_loop (f # fs) w =
     (case rmtree w f of
        Inr w' \<Rightarrow> remove_result_loop fs w'
      | Inl e \<Rightarrow> remove_result_loop fs
          (print (''Failed to remove '' @ f @ '':'' @ [CHR 0x0A] @ err_str e) w))"

definition removeResultFolders :: "world \<Rightarrow> exn option \<times> world" where
  "removeResultFolders w = remove_result_loop (getResultFolders (entries w)) w"

definition removePostProcessingFolder :: "world \<Rightarrow> exn option \<times> world" where
  "removePostProcessingFolder w =
     (if \<not> isdir (entries w) ''postProcessing'' then (None, w)
      else (case rmtree w ''postProcessing'' of
              Inr w' \<Rightarrow> (None, w')
            | Inl e \<Rightarrow> (None, print (''Failed to remove postProcessing folder:'' @ [CHR 0x0A] @ err_str e) w)))"

text \<open>
  \<open>removePolyMeshContent\<close> works inside \<open>polyMesh\<close> under \<open>constant\<close>: everything but
  \<open>blockMeshDict\<close> is removed, a file by \<open>os.remove\<close>, a directory by \<open>rmtree\<close>, neither
  call guarded. \<open>os.listdir\<close> raises when the folder is missing.
\<close>

definition polyMeshFolder :: "dir \<Rightarrow> dir option" where
  "polyMeshFolder d =
     (case map_of d ''constant'' of
        Some (Dir cs) \<Rightarrow> (case map_of cs ''polyMesh'' of Some (Dir ps) \<Rightarrow> Some ps | _ \<Rightarrow> None)
      | _ \<Rightarrow> None)"

definition set_polyMeshFolder :: "dir \<Rightarrow> dir \<Rightarrow> dir" where
  "set_polyMeshFolder d ps =
     map (\<lambda>(n, x). if n = ''constant''
            then (n, case x of
                       Dir cs \<Rightarrow> Dir (map (\<lambda>(m, y). if m = ''polyMesh'' then (m, Dir ps) else (m, y)) cs)
                     | File c \<Rightarrow> File c)
            else (n, x)) d"

fun remove_content_loop :: "string list \<Rightarrow> string list list \<Rightarrow> dir \<Rightarrow> exn option \<times> dir" where
  "remove_content_loop [] lk ps = (None, ps)"
| "remove_content_loop (f # fs) lk ps =
     (if f \<noteq> ''blockMeshDict''
      then (case map_of ps f of
              Some (File _) \<Rightarrow>
                (if [''constant'', ''polyMesh'', f] \<in> set lk then (Some (OSError ''Access is denied''), ps)
                 else remove_content_loop fs lk (filter (\<lambda>(n, x). n \<noteq> f) ps))
            | Some (Dir _) \<Rightarrow>
                (if [''constant'', ''polyMesh'', f] \<in> set lk then (Some (OSError ''Access is denied''), ps)
                 else remove_content_loop fs lk (filter (\<lambda>(n, x). n \<noteq> f) ps))
            | None \<Rightarrow> remove_content_loop fs lk ps)
      else remove_content_loop fs lk ps)"

definition removePolyMeshContent :: "world \<Rightarrow> exn option \<times> world" where
  "removePolyMeshContent w =
     (case polyMeshFolder (entries w) of
        None \<Rightarrow> (Some (OSError ''The system cannot find the path specified''), w)
      | Some ps \<Rightarrow>
          (case remove_content_loop (listdir ps) (locked w) ps of
             (r, ps') \<Rightarrow> (r, w\<lparr>entries := set_polyMeshFolder (entries w) ps'\<rparr>)))"

text \<open>A raised exception ends \<open>purge\<close>; otherwise the next step runs on the new state.\<close>

definition then_do ::
  "exn option \<times> world \<Rightarrow> (world \<Rightarrow> exn option \<times> world) \<Rightarrow> exn option \<times> world" where
  "then_do r f = (case r of (Some e, w) \<Rightarrow> (Some e, w) | (None, w) \<Rightarrow> f w)"

definition purge ::
  "platform \<Rightarrow> world \<Rightarrow> bool \<Rightarrow> bool \<Rightarrow> bool \<Rightarrow> bool \<Rightarrow> exn option \<times> world" where
  "purge pf w removePolyMeshContent_flag removeSnappyHexMeshFolders_flag
         removeResultFolders_flag removePostProcessingFolder_flag =
     then_do (then_do (then_do
       (if removePolyMeshContent_flag then removePolyMeshContent w else (None, w))
       (\<lambda>w. if removeSnappyHexMeshFolders_flag then removeSnappyHexMeshFolders pf w else (None, w)))
       (\<lambda>w. if removeResultFolders_flag then removeResultFolders w else (None, w)))
       (\<lambda>w. if removePostProcessingFolder_flag then removePostProcessingFolder w else (None, w))"


section \<open>The case object\<close>

text \<open>
  The attributes of a \<open>Case\<close> that \<open>save\<close> and \<open>addRefinementRegion\<close> read and write. The
  classes of foam files, geometries, refinement regions and of the \<open>snappyHexMeshDict\<close>
  are defined in other modules and stay type parameters. \<open>__init__\<close> installs each
  foam file as an attribute under its name, so \<open>hasattr(self, 'snappyHexMeshDict')\<close> is
  whether such a foam file was given: the field \<open>snappyHexMeshDict\<close> is \<open>None\<close> when the
  attribute does not exist.
\<close>

record ('ff, 'g, 'r, 's) Case =
  projectName :: string
  workingDir :: string
  originalName :: "string option"
  foamFiles :: "'ff list"
  geometries :: "'g list"
  refinementRegions :: "'r list"
  snappyHexMeshDict :: "'s option"

subsection \<open>\<open>Case.projectName\<close> (setter)\<close>

definition is_name_char :: "char \<Rightarrow> bool" where
  "is_name_char c =
     (c \<in> set ''abcdefghijklmnopqrstuvwxyzABCDEFGHIJKLMNOPQRSTUVWXYZ0123456789_'')"

text \<open>
  \<open>re.match("^[a-zA-Z0-9_]*$", name)\<close>, as a truth value. The class is matched greedily
  from the start of the string; without \<open>re.MULTILINE\<close>, \<open>$\<close> matches at the end of the
  string and also just before a newline that is the last character. No character of the
  class is a newline, so the match succeeds exactly when what follows the longest run of
  class characters is nothing, or one final newline.
\<close>

definition re_match_name :: "string \<Rightarrow> bool" where
  "re_match_name name =
     (let rest = dropWhile is_name_char name in rest = [] \<or> rest = [CHR 0x0A])"

definition projectName_setter ::
  "('ff, 'g, 'r, 's) Case \<Rightarrow> string \<Rightarrow> exn + ('ff, 'g, 'r, 's) Case" where
  "projectName_setter c name =
     (if re_match_name name then Inr (c\<lparr>projectName := name\<rparr>)
      else Inl (AssertionError (''Invalid project name: '' @ [CHR 0x22] @ name @ [CHR 0x22] @ ''.'' @ [CHR 0x0A] @
                 ''Do not use whitespace or special charecters.'')))"

text \<open>Python's \<open>str.isspace\<close> characters: space, tab, newline, return, vertical tab, form feed.\<close>

definition is_whitespace :: "char \<Rightarrow> bool" where
  "is_whitespace c = (c \<in> {CHR 0x20, CHR 0x09, CHR 0x0A, CHR 0x0D, CHR 0x0B, CHR 0x0C})"

subsection \<open>\<open>Case.addRefinementRegion\<close>\<close>

text \<open>
  \<open>isRefinementRegion\<close> is \<open>hasattr(refinementRegion, 'isRefinementRegion')\<close>;
  \<open>shmd_add\<close> is \<open>SnappyHexMeshDict.addRefinementRegion\<close>, which may raise. The result is
  the exception raised, if any, and the case as the call leaves it.
\<close>

definition addRefinementRegion ::
  "('r \<Rightarrow> bool) \<Rightarrow> ('s \<Rightarrow> 'r \<Rightarrow> exn + 's) \<Rightarrow> ('ff, 'g, 'r, 's) Case \<Rightarrow> 'r \<Rightarrow>
   exn option \<times> ('ff, 'g, 'r, 's) Case" where
  "addRefinementRegion isRefinementRegion shmd_add c refinementRegion =
     (if \<not> isRefinementRegion refinementRegion
      then (Some (AssertionError ''is not a refinement region.''), c)
      else
        (let c1 = c\<lparr>refinementRegions := refinementRegions c @ [refinementRegion]\<rparr>
         in case snappyHexMeshDict c1 of
              None \<Rightarrow>
                (Some (AssertionError
                   (''You can'' @ [CHR 0x27] @ ''t add a refinementRegion to a case with no snappyHexMeshDict.'')), c1)
            | Some s \<Rightarrow>
                (case shmd_add s refinementRegion of
                   Inl e \<Rightarrow> (Some e, c1)
                 | Inr s' \<Rightarrow> (None, c1\<lparr>snappyHexMeshDict := Some s'\<rparr>))))"

subsection \<open>\<open>Case.save\<close>\<close>

text \<open>
  \<open>save\<close> reaches the file system through \<open>os.path.exists\<close>, \<open>rmtree(..., ignore_errors=True)\<close>
  and \<open>os.makedirs\<close>, and through methods of classes defined in other modules
  (\<open>FoamFile.save\<close>, \<open>toSTL\<close> with the write of the merged file, \<open>writeToStl\<close>). They
  are parameters over a file-system state \<open>'w\<close>. \<open>rmtree\<close> with \<open>ignore_errors=True\<close> has no
  error result: whatever it could not delete is still there in the state it returns.
\<close>

record ('w, 'ff, 'g, 'r) os_env =
  path_join :: "string \<Rightarrow> string \<Rightarrow> string"
  path_exists :: "'w \<Rightarrow> string \<Rightarrow> bool"
  rmtree_ignore_errors :: "'w \<Rightarrow> string \<Rightarrow> 'w"
  makedirs :: "'w \<Rightarrow> string \<Rightarrow> exn + 'w"
  foamfile_save :: "'ff \<Rightarrow> string \<Rightarrow> 'w \<Rightarrow> exn + 'w"
  write_stl :: "string \<Rightarrow> 'g list \<Rightarrow> 'w \<Rightarrow> exn + 'w"
  writeToStl :: "'r \<Rightarrow> string \<Rightarrow> 'w \<Rightarrow> exn + 'w"

text \<open>
  The state \<open>save\<close> runs in: the file system, the calls made so far that change it, in
  order, and the lines printed.
\<close>

datatype call = Rmtree string | Makedirs string | SaveFoamFile | WriteStl string | WriteRefinementStl

record 'w sys =
  fsys :: 'w
  calls :: "call list"
  printed :: "string list"

definition SUBFOLDERS :: "string list" where
  "SUBFOLDERS = [''0'', ''constant'', ''constant'' @ [CHR 0x5C] @ ''polyMesh'',
                 ''constant'' @ [CHR 0x5C] @ ''triSurface'', ''system'', ''log'']"

definition projectDir :: "('w, 'ff, 'g, 'r) os_env \<Rightarrow> ('ff, 'g, 'r, 's) Case \<Rightarrow> string" where
  "projectDir env c = path_join env (workingDir c) (projectName c)"

definition triSurfaceFolder :: "('w, 'ff, 'g, 'r) os_env \<Rightarrow> ('ff, 'g, 'r, 's) Case \<Rightarrow> string" where
  "triSurfaceFolder env c = path_join env (projectDir env c) (''constant'' @ [CHR 0x5C] @ ''triSurface'')"

text \<open>The loop over \<open>SUBFOLDERS\<close>: an exception of \<open>os.makedirs\<close> is raised again as \<open>IOError\<close>.\<close>

fun create_subfolders ::
  "('w, 'ff, 'g, 'r) os_env \<Rightarrow> string \<Rightarrow> string list \<Rightarrow> 'w sys \<Rightarrow> exn option \<times> 'w sys" where
  "create_subfolders env pd [] st = (None, st)"
| "create_subfolders env pd (f # fs) st =
     (let p = path_join env pd f in
      if \<not> path_exists env (fsys st) p
      then (case makedirs env (fsys st) p of
              Inl e \<Rightarrow>
                (Some (IOError (''Butterfly failed to create '' @ p @ [CHR 0x0A] @ err_str e)),
                 st\<lparr>calls := calls st @ [Makedirs p]\<rparr>)
            | Inr w' \<Rightarrow>
                create_subfolders env pd fs (st\<lparr>fsys := w', calls := calls st @ [Makedirs p]\<rparr>))
      else create_subfolders env pd fs st)"

fun save_foamfiles ::
  "('w, 'ff, 'g, 'r) os_env \<Rightarrow> string \<Rightarrow> 'ff list \<Rightarrow> 'w sys \<Rightarrow> exn option \<times> 'w sys" where
  "save_foamfiles env pd [] st = (None, st)"
| "save_foamfiles env pd (f # fs) st =
     (case foamfile_save env f pd (fsys st) of
        Inl e \<Rightarrow> (Some e, st\<lparr>calls := calls st @ [SaveFoamFile]\<rparr>)
      | Inr w' \<Rightarrow> save_foamfiles env pd fs (st\<lparr>fsys := w', calls := calls st @ [SaveFoamFile]\<rparr>))"

fun write_refinementRegions ::
  "('w, 'ff, 'g, 'r) os_env \<Rightarrow> string \<Rightarrow> 'r list \<Rightarrow> 'w sys \<Rightarrow> exn option \<times> 'w sys" where
  "write_refinementRegions env folder [] st = (None, st)"
| "write_refinementRegions env folder (r # rs) st =
     (case writeToStl env r folder (fsys st) of
        Inl e \<Rightarrow> (Some e, st\<lparr>calls := calls st @ [WriteRefinementStl]\<rparr>)
      | Inr w' \<Rightarrow>
          write_refinementRegions env folder rs
            (st\<lparr>fsys := w', calls := calls st @ [WriteRefinementStl]\<rparr>))"

definition delete_first ::
  "('w, 'ff, 'g, 'r) os_env \<Rightarrow> string \<Rightarrow> bool \<Rightarrow> 'w sys \<Rightarrow> 'w sys" where
  "delete_first env pd overwrite st =
     (if overwrite \<and> path_exists env (fsys st) pd
      then st\<lparr>fsys := rmtree_ignore_errors env (fsys st) pd, calls := calls st @ [Rmtree pd]\<rparr>
      else st)"

definition save ::
  "('w, 'ff, 'g, 'r) os_env \<Rightarrow> ('ff, 'g, 'r, 's) Case \<Rightarrow> bool \<Rightarrow> 'w sys \<Rightarrow> exn option \<times> 'w sys" where
  "save env c overwrite st =
     (let pd = projectDir env c;
          st1 = delete_first env pd overwrite st
      in case create_subfolders env pd SUBFOLDERS st1 of
           (Some e, st2) \<Rightarrow> (Some e, st2)
         | (None, st2) \<Rightarrow>
        (case save_foamfiles env pd (foamFiles c) st2 of
           (Some e, st3) \<Rightarrow> (Some e, st3)
         | (None, st3) \<Rightarrow>
        (let stlName = (case originalName c of Some n \<Rightarrow> if n = [] then projectName c else n
                                             | None \<Rightarrow> projectName c);
             stlPath = path_join env (triSurfaceFolder env c) (stlName @ ''.stl'')
         in case write_stl env stlPath (geometries c) (fsys st3) of
              Inl e \<Rightarrow> (Some e, st3\<lparr>calls := calls st3 @ [WriteStl stlPath]\<rparr>)
            | Inr w4 \<Rightarrow>
        (case write_refinementRegions env (triSurfaceFolder env c) (refinementRegions c)
                (st3\<lparr>fsys := w4, calls := calls st3 @ [WriteStl stlPath]\<rparr>) of
           (Some e, st5) \<Rightarrow> (Some e, st5)
         | (None, st5) \<Rightarrow>
             (None, st5\<lparr>printed := printed st5 @
                [projectName c @ '' is saved to:'' @ [CHR 0x0A] @ pd]\<rparr>)))))"

section \<open>Running a command: \<open>Case.command\<close>\<close>

text \<open>
  The state a command runs in: the content of each file by path (a file that does not exist
  reads as empty), the files whose content has been inspected, and the lines printed.
\<close>

record exec_world =
  file_content :: "string \<Rightarrow> string"
  inspected :: "string list"
  console :: "string list"

text \<open>
  Modelled from the spec: \<open>RunManager.checkFileContents\<close>, of the module \<open>runmanager\<close>,
  whose code is missing. The spec: "after the process exits, the error file is inspected;
  success iff the error file is empty", "the reported failure content equals the error
  file's content verbatim", and "the log file's content is surfaced to any caller requesting
  it". The call sites give the shape: a tuple of files and \<open>mute\<close> go in, the pair
  \<open>(hascontent, content)\<close> comes out. Where several files are given, on which the spec is
  silent, their contents are joined in order.
\<close>

definition checkFileContents ::
  "string list \<Rightarrow> bool \<Rightarrow> exec_world \<Rightarrow> (bool \<times> string) \<times> exec_world" where
  "checkFileContents files mute w =
     (let content = concat (map (file_content w) files);
          w1 = w\<lparr>inspected := inspected w @ files\<rparr>
      in ((content \<noteq> [], content),
          (if content \<noteq> [] \<and> \<not> mute then w1\<lparr>console := console w1 @ [content]\<rparr> else w1)))"

text \<open>
  The other methods of \<open>RunManager\<close> are parameters: \<open>command\<close> builds the command
  descriptor, \<open>run\<close> starts the process (and waits for it when \<open>wait\<close> holds) and returns the
  process handle and the relative paths of the log and error files, or raises.
  \<open>rm_mute_default\<close> is the default of \<open>mute\<close>, which the second call in \<open>Case.command\<close>
  leaves to \<open>checkFileContents\<close>. \<open>norm_join\<close> is
  \<open>os.path.normpath(os.path.join(self.projectDir, f))\<close>.
\<close>

record ('p, 'c, 'd) runmanager =
  rm_command :: "string \<Rightarrow> string list option \<Rightarrow> 'd option \<Rightarrow> 'c"
  rm_run :: "string \<Rightarrow> string list option \<Rightarrow> 'd option \<Rightarrow> bool \<Rightarrow> exec_world \<Rightarrow>
             (exn + ('p \<times> string list \<times> string list)) \<times> exec_world"
  rm_mute_default :: bool
  norm_join :: "string \<Rightarrow> string"

text \<open>The named tuple \<open>log\<close>: \<open>success error process logfiles errorfiles\<close>.\<close>

record 'p log =
  success :: bool
  error :: "string option"
  process :: "'p option"
  logfiles :: "string list"
  errorfiles :: "string list"

datatype ('p, 'c) command_result = CmdLog 'c | RunLog "'p log" | Raised exn

definition command ::
  "('p, 'c, 'd) runmanager \<Rightarrow> string \<Rightarrow> string list option \<Rightarrow> 'd option \<Rightarrow> bool \<Rightarrow> bool \<Rightarrow>
   exec_world \<Rightarrow> ('p, 'c) command_result \<times> exec_world" where
  "command rm cmd args decomposeParDict run wait w =
     (if \<not> run then (CmdLog (rm_command rm cmd args decomposeParDict), w)
      else
        (case rm_run rm cmd args decomposeParDict wait w of
           (Inl e, w1) \<Rightarrow> (Raised e, w1)
         | (Inr (p, lfs, efs), w1) \<Rightarrow>
             (let logfiles = map (norm_join rm) lfs;
                  errfiles = map (norm_join rm) efs
              in if wait
                 then (case checkFileContents logfiles False w1 of
                         (_, w2) \<Rightarrow>
                       (case checkFileContents errfiles (rm_mute_default rm) w2 of
                         ((hascontent, content), w3) \<Rightarrow>
                           (RunLog \<lparr>success = \<not> hascontent, error = Some content,
                                    process = Some p, logfiles = logfiles,
                                    errorfiles = errfiles\<rparr>, w3)))
                 else (RunLog \<lparr>success = True, error = None, process = None,
                               logfiles = logfiles, errorfiles = errfiles\<rparr>, w1))))"

section \<open>Wind tunnel parameters: \<open>TunnelParameters\<close>\<close>

text \<open>
  A Python float is a finite value, an infinity or not-a-number. The finite values are
  modelled by the reals they denote: the check below only compares with zero. The
  constructor's arguments are numbers or \<open>None\<close>.
\<close>

datatype pyfloat = Finite real | PosInf | NegInf | NaN

datatype pyval = PyFloat pyfloat | PyInt int | PyNone

text \<open>\<open>_inp > 0\<close>: false for not-a-number.\<close>

fun float_gt_zero :: "pyfloat \<Rightarrow> bool" where
  "float_gt_zero (Finite r) = (0 < r)"
| "float_gt_zero PosInf = True"
| "float_gt_zero NegInf = False"
| "float_gt_zero NaN = False"

text \<open>
  \<open>float(input)\<close>. A float is returned as it is; \<open>None\<close> raises \<open>TypeError\<close>; an integer is
  rounded to the nearest double, which keeps its sign and maps only zero to zero, and
  raises \<open>OverflowError\<close> when the integer is beyond the range of doubles (at
  \<open>2^1024 - 2^970\<close> rounding would reach infinity). The rounded value is modelled by the
  integer itself.
\<close>

definition py_float :: "pyval \<Rightarrow> exn + pyfloat" where
  "py_float v =
     (case v of
        PyFloat x \<Rightarrow> Inr x
      | PyInt n \<Rightarrow>
          (if \<bar>n\<bar> \<ge> 2 ^ 1024 - 2 ^ 970 then Inl (OverflowError ''long int too large to convert to float'')
           else Inr (Finite (of_int n)))
      | PyNone \<Rightarrow> Inl (TypeError ''float() argument must be a string or a number''))"

text \<open>\<open>TunnelParameters.__check_input\<close>: only \<open>TypeError\<close> is caught.\<close>

definition check_input :: "pyval \<Rightarrow> exn + pyfloat" where
  "check_input inp =
     (case py_float inp of
        Inl (TypeError m) \<Rightarrow> Inl (ValueError ''Failed to convert to a number.'')
      | Inl e \<Rightarrow> Inl e
      | Inr x \<Rightarrow>
          (if float_gt_zero x then Inr x
           else Inl (AssertionError ''Value should be larger than 0.'')))"

record TunnelParameters =
  windward :: pyfloat
  top :: pyfloat
  side :: pyfloat
  leeward :: pyfloat

text \<open>\<open>TunnelParameters.__init__\<close>: the four checks run in this order; the first that raises ends the construction.\<close>

definition TunnelParameters_init ::
  "pyval \<Rightarrow> pyval \<Rightarrow> pyval \<Rightarrow> pyval \<Rightarrow> exn + TunnelParameters" where
  "TunnelParameters_init windward_arg top_arg side_arg leeward_arg =
     (case check_input windward_arg of Inl e \<Rightarrow> Inl e | Inr w \<Rightarrow>
     (case check_input top_arg of Inl e \<Rightarrow> Inl e | Inr t \<Rightarrow>
     (case check_input side_arg of Inl e \<Rightarrow> Inl e | Inr s \<Rightarrow>
     (case check_input leeward_arg of Inl e \<Rightarrow> Inl e | Inr l \<Rightarrow>
        Inr \<lparr>windward = w, top = t, side = s, leeward = l\<rparr>))))"

text \<open>A value that is zero or below: what the claim calls non-positive.\<close>

fun non_positive :: "pyval \<Rightarrow> bool" where
  "non_positive (PyInt n) = (n \<le> 0)"
| "non_positive (PyFloat (Finite r)) = (r \<le> 0)"
| "non_positive (PyFloat NegInf) = True"
| "non_positive (PyFloat PosInf) = False"
| "non_positive (PyFloat NaN) = False"
| "non_positive PyNone = False"


section \<open>Concrete inputs\<close>

definition mesh_folder :: node where
  "mesh_folder = Dir [(''polyMesh'', Dir [(''points'', File ''...'')])]"

text \<open>Mesh snapshots 3, 10 and 2 and result folders 30, 4 and 100, in no particular order.\<close>

definition dir_3_10_2 :: dir where
  "dir_3_10_2 = [(''3'', mesh_folder), (''30'', Dir []), (''10'', mesh_folder), (''0'', Dir []),
                 (''4'', Dir []), (''2'', mesh_folder), (''100'', Dir []), (''log'', Dir [])]"

text \<open>The initial folder holds a mesh; a snapshot is named with a leading zero.\<close>

definition dir_zero_mesh :: dir where
  "dir_zero_mesh = [(''0'', mesh_folder), (''01'', mesh_folder), (''1'', Dir [])]"

text \<open>Two mesh snapshots, one result folder; the operating system refuses to delete \<open>1\<close>.\<close>

definition world_locked :: world where
  "world_locked =
     \<lparr>entries = [(''0'', Dir []), (''1'', mesh_folder), (''2'', mesh_folder), (''5'', Dir [])],
      locked = [[''1'']], stdout = []\<rparr>"

definition case0 :: "(unit, unit, string, unit) Case" where
  "case0 = \<lparr>projectName = ''duct'', workingDir = ''butterfly'', originalName = None,
            foamFiles = [], geometries = [], refinementRegions = [],
            snappyHexMeshDict = None\<rparr>"

text \<open>A run manager whose process leaves a non-empty error file behind.\<close>

definition rm0 :: "(nat, string, unit) runmanager" where
  "rm0 = \<lparr>rm_command = (\<lambda>cmd args d. cmd),
          rm_run = (\<lambda>cmd args d wait w. (Inr (7, [cmd @ ''.log''], [cmd @ ''.err'']), w)),
          rm_mute_default = False,
          norm_join = (\<lambda>f. ''duct/'' @ f)\<rparr>"

definition exec0 :: exec_world where
  "exec0 = \<lparr>file_content = (\<lambda>p. if p = ''duct/blockMesh.err'' then ''FOAM FATAL ERROR'' else []),
            inspected = [], console = []\<rparr>"

text \<open>One snapshot, and one that was frozen earlier.\<close>

definition dir_prefrozen :: dir where
  "dir_prefrozen = [(''1'', mesh_folder), (''2.org'', mesh_folder)]"

text \<open>A snapshot named with a leading zero beside a result folder.\<close>

definition dir_leading_zero :: dir where
  "dir_leading_zero = [(''01'', mesh_folder), (''1'', Dir [])]"

text \<open>A snapshot named with leading zeros.\<close>

definition dir_007 :: dir where
  "dir_007 = [(''007'', mesh_folder), (''3'', mesh_folder)]"

text \<open>A frozen snapshot whose original name is taken by an empty folder.\<close>

definition dir_empty_target :: dir where
  "dir_empty_target = [(''1.org'', mesh_folder), (''1'', Dir [])]"

text \<open>A snapshot beside a folder whose name differs from its frozen name by case only.\<close>

definition dir_case :: dir where
  "dir_case = [(''1'', mesh_folder), (''1.ORG'', Dir [])]"

text \<open>A frozen snapshot whose original name is taken by a result folder.\<close>

definition dir_collision :: dir where
  "dir_collision = [(''1.org'', mesh_folder), (''1'', Dir [(''U'', File ''...'')])]"

text \<open>A file system as the list of its paths, on which \<open>system\<close> cannot be created.\<close>

definition env0 :: "(string list, unit, unit, string) os_env" where
  "env0 = \<lparr>path_join = (\<lambda>a b. a @ ''/'' @ b),
           path_exists = (\<lambda>w p. p \<in> set w),
           rmtree_ignore_errors = (\<lambda>w p. filter (\<lambda>q. \<not> prefix p q) w),
           makedirs = (\<lambda>w p. if p = ''butterfly/duct/system'' then Inl (OSError ''Access is denied'')
                               else Inr (w @ [p])),
           foamfile_save = (\<lambda>f pd w. Inr w),
           write_stl = (\<lambda>p gs w. Inr (w @ [p])),
           writeToStl = (\<lambda>r folder w. Inr w)\<rparr>"

definition sys0 :: "string list sys" where
  "sys0 = \<lparr>fsys = [''butterfly/duct'', ''butterfly/duct/0'', ''butterfly/duct/0/U''],
           calls = [], printed = []\<rparr>"

section \<open>Running a command: classification of the result\<close>

text \<open>
  Claim C1. A command run with \<open>wait=True\<close> that completes, with one error file: the result
  reports success exactly when the error file is empty once the process has exited, and
  when it is not empty the reported error is the content of the error file, unchanged.
\<close>

theorem command_wait_classification:
  assumes "rm_run rm cmd args dpd True w = (Inr (p, lfs, [ef]), w1)"
  shows "\<exists>l w'. command rm cmd args dpd True True w = (RunLog l, w') \<and>
           (success l \<longleftrightarrow> file_content w1 (norm_join rm ef) = []) \<and>
           (\<not> success l \<longrightarrow> error l = Some (file_content w1 (norm_join rm ef)))"
  using assms by (simp add: command_def checkFileContents_def Let_def split: prod.splits)

theorem command_wait_classification_witness:
  "rm_run rm0 ''blockMesh'' None None True exec0 =
     (Inr (7, [''blockMesh.log''], [''blockMesh.err'']), exec0) \<and>
   (\<exists>l w'. command rm0 ''blockMesh'' None None True True exec0 = (RunLog l, w') \<and>
      (success l \<longleftrightarrow> file_content exec0 (norm_join rm0 ''blockMesh.err'') = []) \<and>
      (\<not> success l \<longrightarrow> error l = Some (file_content exec0 (norm_join rm0 ''blockMesh.err''))))"
  using command_wait_classification
    [of rm0 "''blockMesh''" None None exec0 7 "[''blockMesh.log'']" "''blockMesh.err''" exec0]
  by (simp add: rm0_def)

text \<open>
  Claim C9. With \<open>run=True\<close> and \<open>wait=False\<close>, whenever the run manager returns, the result
  reports success, no error and no process, with the normalised log and error file paths;
  the state is the one the run manager returned, so no file has been inspected.
\<close>

theorem command_no_wait:
  assumes "rm_run rm cmd args dpd False w = (Inr (p, lfs, efs), w1)"
  shows "command rm cmd args dpd True False w =
           (RunLog \<lparr>success = True, error = None, process = None,
                    logfiles = map (norm_join rm) lfs, errorfiles = map (norm_join rm) efs\<rparr>, w1)"
  using assms by (simp add: command_def)

theorem command_no_wait_witness:
  "rm_run rm0 ''blockMesh'' None None False exec0 =
     (Inr (7, [''blockMesh.log''], [''blockMesh.err'']), exec0) \<and>
   file_content exec0 ''duct/blockMesh.err'' \<noteq> [] \<and>
   command rm0 ''blockMesh'' None None True False exec0 =
     (RunLog \<lparr>success = True, error = None, process = None,
              logfiles = [''duct/blockMesh.log''], errorfiles = [''duct/blockMesh.err'']\<rparr>, exec0)"
  using command_no_wait
    [of rm0 "''blockMesh''" None None exec0 7 "[''blockMesh.log'']" "[''blockMesh.err'']" exec0]
  by (simp add: rm0_def exec0_def)

section \<open>Adding a refinement region\<close>

text \<open>
  Claim C10. On a case without the attribute \<open>snappyHexMeshDict\<close>, adding a refinement region
  raises \<open>AssertionError\<close>, and the case it leaves behind already holds the region at the end
  of \<open>refinementRegions\<close>.
\<close>

theorem addRefinementRegion_not_atomic:
  assumes "snappyHexMeshDict c = None" and "isRefinementRegion r"
  shows "(\<exists>m. fst (addRefinementRegion isRefinementRegion shmd_add c r) = Some (AssertionError m)) \<and>
         refinementRegions (snd (addRefinementRegion isRefinementRegion shmd_add c r)) =
           refinementRegions c @ [r]"
  using assms by (simp add: addRefinementRegion_def Let_def)

theorem addRefinementRegion_not_atomic_witness:
  "snappyHexMeshDict case0 = None \<and> (\<lambda>r. True) ''region'' \<and>
   (\<exists>m. fst (addRefinementRegion (\<lambda>r. True) (\<lambda>s r. Inr s) case0 ''region'') =
          Some (AssertionError m)) \<and>
   refinementRegions (snd (addRefinementRegion (\<lambda>r. True) (\<lambda>s r. Inr s) case0 ''region'')) =
     [''region'']"
  using addRefinementRegion_not_atomic [of case0 "\<lambda>r. True" "''region''" "\<lambda>s r. Inr s"]
  by (simp add: case0_def)

section \<open>Wind tunnel parameters\<close>

lemma check_input_non_positive:
  "non_positive v \<Longrightarrow> \<exists>e. check_input v = Inl e"
  by (cases v rule: non_positive.cases) (auto simp: check_input_def py_float_def split: exn.splits)

lemma check_input_non_positive_assert:
  "non_positive v \<Longrightarrow> py_float v = Inr x \<Longrightarrow> \<exists>m. check_input v = Inl (AssertionError m)"
  by (cases v rule: non_positive.cases) (auto simp: check_input_def py_float_def split: if_splits)

lemma check_input_float:
  "py_float v = Inr x \<Longrightarrow> (\<exists>m. check_input v = Inl (AssertionError m)) \<or> check_input v = Inr x"
  by (auto simp: check_input_def)

text \<open>
  Claim C8. When one of the four arguments is zero or below, the constructor returns no
  object but raises; when all four arguments convert to a float, what it raises is the
  \<open>AssertionError\<close> of the check.
\<close>

theorem TunnelParameters_rejects_non_positive:
  assumes "non_positive w \<or> non_positive t \<or> non_positive s \<or> non_positive l"
  shows "\<exists>e. TunnelParameters_init w t s l = Inl e \<and>
           ((\<exists>xw xt xs xl. py_float w = Inr xw \<and> py_float t = Inr xt \<and>
                            py_float s = Inr xs \<and> py_float l = Inr xl) \<longrightarrow>
            (\<exists>m. e = AssertionError m))"
proof (cases "\<exists>xw xt xs xl. py_float w = Inr xw \<and> py_float t = Inr xt \<and>
                            py_float s = Inr xs \<and> py_float l = Inr xl")
  case True
  then obtain xw xt xs xl where f: "py_float w = Inr xw" "py_float t = Inr xt"
      "py_float s = Inr xs" "py_float l = Inr xl" by auto
  note c = check_input_float [OF f(1)] check_input_float [OF f(2)]
    check_input_float [OF f(3)] check_input_float [OF f(4)]
  from assms consider "non_positive w" | "non_positive t" | "non_positive s" | "non_positive l"
    by blast
  then have "\<exists>m. TunnelParameters_init w t s l = Inl (AssertionError m)"
  proof cases
    case 1
    from check_input_non_positive_assert [OF this f(1)] show ?thesis
      by (auto simp: TunnelParameters_init_def)
  next
    case 2
    from check_input_non_positive_assert [OF this f(2)] c(1) show ?thesis
      by (auto simp: TunnelParameters_init_def)
  next
    case 3
    from check_input_non_positive_assert [OF this f(3)] c(1) c(2) show ?thesis
      by (auto simp: TunnelParameters_init_def)
  next
    case 4
    from check_input_non_positive_assert [OF this f(4)] c(1) c(2) c(3) show ?thesis
      by (auto simp: TunnelParameters_init_def)
  qed
  then show ?thesis by auto
next
  case False
  from assms consider "non_positive w" | "non_positive t" | "non_positive s" | "non_positive l"
    by blast
  then have "\<exists>e. TunnelParameters_init w t s l = Inl e"
  proof cases
    case 1
    from check_input_non_positive [OF this] show ?thesis
      by (auto simp: TunnelParameters_init_def)
  next
    case 2
    from check_input_non_positive [OF this] show ?thesis
      by (auto simp: TunnelParameters_init_def split: sum.splits)
  next
    case 3
    from check_input_non_positive [OF this] show ?thesis
      by (auto simp: TunnelParameters_init_def split: sum.splits)
  next
    case 4
    from check_input_non_positive [OF this] show ?thesis
      by (auto simp: TunnelParameters_init_def split: sum.splits)
  qed
  with False show ?thesis by blast
qed

theorem TunnelParameters_rejects_non_positive_witness:
  "(non_positive (PyInt 3) \<or> non_positive (PyInt 5) \<or> non_positive (PyFloat (Finite 0)) \<or>
    non_positive (PyInt 15)) \<and>
   (\<exists>xw xt xs xl. py_float (PyInt 3) = Inr xw \<and> py_float (PyInt 5) = Inr xt \<and>
      py_float (PyFloat (Finite 0)) = Inr xs \<and> py_float (PyInt 15) = Inr xl) \<and>
   (\<exists>m. TunnelParameters_init (PyInt 3) (PyInt 5) (PyFloat (Finite 0)) (PyInt 15) =
          Inl (AssertionError m))"
  using TunnelParameters_rejects_non_positive
    [of "PyInt 3" "PyInt 5" "PyFloat (Finite 0)" "PyInt 15"]
  by (auto simp: py_float_def)

section \<open>The project name\<close>

text \<open>Which names the setter accepts: the names of the pattern, and those followed by one newline.\<close>

lemma re_match_name_iff:
  "re_match_name name \<longleftrightarrow>
     list_all is_name_char name \<or>
     (\<exists>body. name = body @ [CHR 0x0A] \<and> list_all is_name_char body)"
proof -
  have nl: "\<not> is_name_char (CHR 0x0A)" by (simp add: is_name_char_def)
  have a: "dropWhile is_name_char name = [] \<longleftrightarrow> list_all is_name_char name"
    by (simp add: dropWhile_eq_Nil_conv list_all_iff)
  have b: "dropWhile is_name_char name = [CHR 0x0A] \<longleftrightarrow>
           (\<exists>body. name = body @ [CHR 0x0A] \<and> list_all is_name_char body)"
  proof
    assume h: "dropWhile is_name_char name = [CHR 0x0A]"
    have "name = takeWhile is_name_char name @ dropWhile is_name_char name" by simp
    with h have "name = takeWhile is_name_char name @ [CHR 0x0A]" by simp
    moreover have "list_all is_name_char (takeWhile is_name_char name)"
      by (auto simp: list_all_iff dest: set_takeWhileD)
    ultimately show "\<exists>body. name = body @ [CHR 0x0A] \<and> list_all is_name_char body" by blast
  next
    assume "\<exists>body. name = body @ [CHR 0x0A] \<and> list_all is_name_char body"
    then obtain body where n: "name = body @ [CHR 0x0A]" and all: "list_all is_name_char body"
      by blast
    from all have "dropWhile is_name_char (body @ [CHR 0x0A]) = dropWhile is_name_char [CHR 0x0A]"
      by (intro dropWhile_append2) (simp add: list_all_iff)
    with n nl show "dropWhile is_name_char name = [CHR 0x0A]" by simp
  qed
  show ?thesis unfolding re_match_name_def Let_def a b ..
qed

text \<open>
  Claim C6, at the name \<open>abc\<close> followed by a newline: the name contains whitespace and a
  character outside the class, and the setter accepts it.
\<close>

theorem projectName_accepts_trailing_newline:
  "projectName_setter case0 (''abc'' @ [CHR 0x0A]) =
     Inr (case0\<lparr>projectName := ''abc'' @ [CHR 0x0A]\<rparr>) \<and>
   list_ex is_whitespace (''abc'' @ [CHR 0x0A]) \<and>
   \<not> list_all is_name_char (''abc'' @ [CHR 0x0A])"
  by (simp add: projectName_setter_def re_match_name_def is_name_char_def is_whitespace_def)

section \<open>Removing folders\<close>

text \<open>The loop of \<open>removeResultFolders\<close> never raises.\<close>

lemma remove_result_loop_never_raises: "fst (remove_result_loop fs w) = None"
  by (induction fs arbitrary: w) (auto split: sum.splits)

text \<open>
  Claim C4, at a project whose mesh snapshot \<open>1\<close> cannot be deleted, on any platform: \<open>purge\<close> raises
  \<open>NameError\<close>, prints nothing, and leaves the snapshot \<open>2\<close> and the result folder \<open>5\<close> in
  place, although their removal was asked for.
\<close>

theorem purge_raises_on_locked_snapshot:
  "purge pf world_locked False True True False =
     (Some (NameError (''global name '' @ [CHR 0x27] @ ''_f'' @ [CHR 0x27] @ '' is not defined'')), world_locked)"
  by code_simp


section \<open>Numbered folders\<close>

lemma digit_val_char: "d < 10 \<Longrightarrow> digit_val (digit_char d) = d"
proof -
  assume "d < 10"
  then have "d \<in> {0,1,2,3,4,5,6,7,8,9}" by auto
  then show ?thesis by (auto simp: digit_val_def digit_char_def)
qed

lemma digit_char_val: "is_digit c \<Longrightarrow> digit_char (digit_val c) = c"
  by (auto simp: is_digit_def digit_val_def digit_char_def)

lemma digit_val_lt: "is_digit c \<Longrightarrow> digit_val c < 10"
  by (auto simp: is_digit_def digit_val_def)

lemma digits_val_snoc: "digits_val (s @ [c]) = 10 * digits_val s + digit_val c"
  by (simp add: digits_val_def)

lemma digits_val_str_nat: "digits_val (str_nat n) = n"
proof (induction n rule: str_nat.induct)
  case (1 n)
  show ?case
  proof (cases "n < 10")
    case True
    then show ?thesis by (simp add: str_nat.simps [of n] digits_val_def digit_val_char)
  next
    case False
    with 1 have "digits_val (str_nat (n div 10)) = n div 10" by simp
    with False show ?thesis
      by (simp add: str_nat.simps [of n] digits_val_snoc digit_val_char)
  qed
qed

lemma py_int_py_str: "0 \<le> i \<Longrightarrow> py_int (py_str i) = i"
  by (simp add: py_int_def py_str_def digits_val_str_nat)

lemma digits_val_pos:
  "list_all is_digit s \<Longrightarrow> s \<noteq> [] \<Longrightarrow> hd s \<noteq> CHR ''0'' \<Longrightarrow> 0 < digits_val s"
proof (induction s rule: rev_induct)
  case Nil
  then show ?case by simp
next
  case (snoc c s)
  show ?case
  proof (cases "s = []")
    case True
    with snoc.prems show ?thesis
      by (auto simp: digits_val_def is_digit_def digit_val_def)
  next
    case False
    with snoc have "0 < digits_val s" by simp
    then show ?thesis by (simp add: digits_val_snoc)
  qed
qed

lemma str_nat_digits_val: "canonical s \<Longrightarrow> str_nat (digits_val s) = s"
proof (induction s rule: rev_induct)
  case Nil
  then show ?case by (simp add: canonical_def py_isdigit_def)
next
  case (snoc c s)
  from snoc.prems have dc: "is_digit c" and ds: "list_all is_digit s"
    by (simp_all add: canonical_def py_isdigit_def)
  show ?case
  proof (cases "s = []")
    case True
    with dc show ?thesis
      by (simp add: digits_val_def str_nat.simps [of "digit_val c"] digit_val_lt digit_char_val)
  next
    case False
    with snoc.prems have h: "hd s \<noteq> CHR ''0''"
      by (cases s) (auto simp: canonical_def)
    with False ds have cs: "canonical s" by (simp add: canonical_def py_isdigit_def)
    from digits_val_pos [OF ds False h] have pos: "0 < digits_val s" .
    have lt: "digit_val c < 10" using dc by (rule digit_val_lt)
    let ?n = "10 * digits_val s + digit_val c"
    have "\<not> ?n < 10" using pos by simp
    moreover have "?n div 10 = digits_val s" using lt by simp
    moreover have "?n mod 10 = digit_val c" using lt by simp
    ultimately have "str_nat ?n = str_nat (digits_val s) @ [digit_char (digit_val c)]"
      by (simp add: str_nat.simps [of ?n])
    with snoc.IH [OF cs] dc show ?thesis
      by (simp add: digits_val_snoc digit_char_val)
  qed
qed

lemma py_str_py_int: "canonical s \<Longrightarrow> py_str (py_int s) = s"
  by (simp add: py_str_def py_int_def str_nat_digits_val)

lemma py_int_numbered: "map py_int (map py_str (sort (map py_int ns))) = sort (map py_int ns)"
proof -
  have "\<And>i. i \<in> set (sort (map py_int ns)) \<Longrightarrow> py_int (py_str i) = i"
  proof -
    fix i assume "i \<in> set (sort (map py_int ns))"
    then obtain n where "i = py_int n" by auto
    then have "0 \<le> i" by (simp add: py_int_def)
    then show "py_int (py_str i) = i" by (rule py_int_py_str)
  qed
  then have "map (\<lambda>i. py_int (py_str i)) (sort (map py_int ns)) = sort (map py_int ns)"
    by (intro map_idI)
  then show ?thesis by (simp add: comp_def)
qed

lemma mset_numbered_canonical:
  assumes "\<forall>n\<in>set ns. canonical n"
  shows "mset (map py_str (sort (map py_int ns))) = mset ns"
proof -
  have "mset (map py_str (sort (map py_int ns))) = image_mset (\<lambda>n. py_str (py_int n)) (mset ns)"
    by (simp add: image_mset.compositionality comp_def)
  also have "\<dots> = image_mset (\<lambda>n. n) (mset ns)"
    using assms by (intro image_mset_cong) (simp add: py_str_py_int)
  finally show ?thesis by simp
qed

lemma getSnappyHexMeshFolders_alt:
  "getSnappyHexMeshFolders d = map py_str (sort (map py_int (mesh_folder_names d)))"
  by (simp add: getSnappyHexMeshFolders_def mesh_folder_names_def)

lemma getResultFolders_alt:
  "getResultFolders d = map py_str (sort (map py_int (result_folder_names d)))"
  by (simp add: getResultFolders_def result_folder_names_def)

lemma mset_getSnappyHexMeshFolders:
  assumes "numbered_names_canonical d"
  shows "mset (getSnappyHexMeshFolders d) = mset (mesh_folder_names d)"
  unfolding getSnappyHexMeshFolders_alt
  using assms
  by (intro mset_numbered_canonical) (auto simp: numbered_names_canonical_def mesh_folder_names_def list_all_iff)

lemma mset_getResultFolders:
  assumes "numbered_names_canonical d"
  shows "mset (getResultFolders d) = mset (result_folder_names d)"
  unfolding getResultFolders_alt
  using assms
  by (intro mset_numbered_canonical) (auto simp: numbered_names_canonical_def result_folder_names_def list_all_iff)

text \<open>
  Claim C3 fails as stated: a snapshot folder named \<open>007\<close> comes back as \<open>7\<close>, which is
  the name of no folder.
\<close>

theorem numbered_folders_names_counterexample:
  "mesh_folder_names dir_007 = [''007'', ''3''] \<and>
   getSnappyHexMeshFolders dir_007 = [''3'', ''7''] \<and>
   ''7'' \<notin> set (listdir dir_007) \<and>
   ''007'' \<notin> set (getSnappyHexMeshFolders dir_007)"
  by code_simp

text \<open>
  Claim C3, amended. Where every numbered name is written without leading zeros, both
  listings return exactly the names of the folders they select, ordered by numeric value
  ascending: the folders 3, 10 and 2 come back as 2, 3, 10. For any names, what they return
  is ascending by numeric value and denotes the same numbers as the folders they select.
\<close>

theorem numbered_folders_numeric_order:
  "sorted (map py_int (getSnappyHexMeshFolders d)) \<and>
   sorted (map py_int (getResultFolders d)) \<and>
   mset (map py_int (getSnappyHexMeshFolders d)) = mset (map py_int (mesh_folder_names d)) \<and>
   mset (map py_int (getResultFolders d)) = mset (map py_int (result_folder_names d)) \<and>
   (numbered_names_canonical d \<longrightarrow>
      mset (getSnappyHexMeshFolders d) = mset (mesh_folder_names d) \<and>
      mset (getResultFolders d) = mset (result_folder_names d))"
proof -
  have im: "map py_int (getSnappyHexMeshFolders d) = sort (map py_int (mesh_folder_names d))"
    unfolding getSnappyHexMeshFolders_alt by (rule py_int_numbered)
  have ir: "map py_int (getResultFolders d) = sort (map py_int (result_folder_names d))"
    unfolding getResultFolders_alt by (rule py_int_numbered)
  have "sorted (map py_int (getSnappyHexMeshFolders d))" unfolding im by simp
  moreover have "sorted (map py_int (getResultFolders d))" unfolding ir by simp
  moreover have "mset (map py_int (getSnappyHexMeshFolders d)) = mset (map py_int (mesh_folder_names d))"
    unfolding im by simp
  moreover have "mset (map py_int (getResultFolders d)) = mset (map py_int (result_folder_names d))"
    unfolding ir by simp
  ultimately show ?thesis
    using mset_getSnappyHexMeshFolders [of d] mset_getResultFolders [of d] by blast
qed

theorem numbered_folders_numeric_order_witness:
  "numbered_names_canonical dir_3_10_2 \<and>
   getSnappyHexMeshFolders dir_3_10_2 = [''2'', ''3'', ''10''] \<and>
   getResultFolders dir_3_10_2 = [''4'', ''30'', ''100''] \<and>
   sorted (map py_int (getSnappyHexMeshFolders dir_3_10_2)) \<and>
   sorted (map py_int (getResultFolders dir_3_10_2)) \<and>
   mset (getSnappyHexMeshFolders dir_3_10_2) = mset (mesh_folder_names dir_3_10_2) \<and>
   mset (getResultFolders dir_3_10_2) = mset (result_folder_names dir_3_10_2)"
proof -
  have c: "numbered_names_canonical dir_3_10_2" by code_simp
  have m: "getSnappyHexMeshFolders dir_3_10_2 = [''2'', ''3'', ''10'']" by code_simp
  have r: "getResultFolders dir_3_10_2 = [''4'', ''30'', ''100'']" by code_simp
  note t = numbered_folders_numeric_order [of dir_3_10_2]
  from t have s1: "sorted (map py_int (getSnappyHexMeshFolders dir_3_10_2))" by (rule conjunct1)
  from t have s2: "sorted (map py_int (getResultFolders dir_3_10_2))" by blast
  from t c have e1: "mset (getSnappyHexMeshFolders dir_3_10_2) = mset (mesh_folder_names dir_3_10_2)"
    by blast
  from t c have e2: "mset (getResultFolders dir_3_10_2) = mset (result_folder_names dir_3_10_2)"
    by blast
  show ?thesis by (intro conjI c m r s1 s2 e1 e2)
qed

lemma isdir_polyMesh_isdir: "isdir_polyMesh d name \<Longrightarrow> isdir d name"
  by (auto simp: isdir_polyMesh_def isdir_def has_polyMesh_def split: option.splits node.splits)

lemma isdir_polyMesh_listed: "isdir_polyMesh d name \<Longrightarrow> name \<in> set (listdir d)"
proof -
  assume "isdir_polyMesh d name"
  then have "name \<in> dom (map_of d)"
    by (auto simp: isdir_polyMesh_def split: option.splits)
  then show ?thesis by (simp add: dom_map_of_conv_image_fst listdir_def)
qed

text \<open>
  Claim C2 fails as stated: an initial folder \<open>0\<close> that holds a \<open>polyMesh\<close> folder is listed
  as a mesh snapshot, and the snapshot \<open>01\<close> and the result folder \<open>1\<close> are both returned
  as \<open>1\<close>.
\<close>

theorem numbered_folders_partition_counterexample:
  "''0'' \<in> set (getSnappyHexMeshFolders dir_zero_mesh) \<and>
   ''1'' \<in> set (getSnappyHexMeshFolders dir_zero_mesh) \<and>
   ''1'' \<in> set (getResultFolders dir_zero_mesh)"
  by code_simp

text \<open>
  Claim C2, amended. Where every numbered name is written without leading zeros, no name is
  in both listings; together they hold every numbered folder other than \<open>0\<close>, and \<open>0\<close> when
  it holds a \<open>polyMesh\<close> folder; \<open>0\<close> is never a result folder, and it is a mesh snapshot
  exactly when it holds a \<open>polyMesh\<close> folder.
\<close>

theorem numbered_folders_partition:
  assumes "numbered_names_canonical d"
  shows "set (getSnappyHexMeshFolders d) \<inter> set (getResultFolders d) = {} \<and>
         set (getSnappyHexMeshFolders d) \<union> set (getResultFolders d) =
           {name \<in> set (listdir d). py_isdigit name \<and> isdir d name \<and>
              (name \<noteq> ''0'' \<or> isdir_polyMesh d name)} \<and>
         ''0'' \<notin> set (getResultFolders d) \<and>
         (''0'' \<in> set (getSnappyHexMeshFolders d) \<longleftrightarrow> isdir_polyMesh d ''0'')"
proof -
  have m: "set (getSnappyHexMeshFolders d) = set (mesh_folder_names d)"
    using mset_getSnappyHexMeshFolders [OF assms] by (rule mset_eq_setD)
  have r: "set (getResultFolders d) = set (result_folder_names d)"
    using mset_getResultFolders [OF assms] by (rule mset_eq_setD)
  have z: "py_isdigit ''0''" by (simp add: py_isdigit_def is_digit_def)
  show ?thesis
    unfolding m r mesh_folder_names_def result_folder_names_def
    using z by (auto dest: isdir_polyMesh_isdir isdir_polyMesh_listed)
qed

theorem numbered_folders_partition_witness:
  "numbered_names_canonical dir_3_10_2 \<and>
   set (getSnappyHexMeshFolders dir_3_10_2) \<inter> set (getResultFolders dir_3_10_2) = {} \<and>
   getSnappyHexMeshFolders dir_3_10_2 = [''2'', ''3'', ''10''] \<and>
   getResultFolders dir_3_10_2 = [''4'', ''30'', ''100''] \<and>
   ''0'' \<notin> set (getResultFolders dir_3_10_2) \<and>
   \<not> isdir_polyMesh dir_3_10_2 ''0'' \<and>
   ''0'' \<notin> set (getSnappyHexMeshFolders dir_3_10_2)"
proof -
  have c: "numbered_names_canonical dir_3_10_2" by code_simp
  have m: "getSnappyHexMeshFolders dir_3_10_2 = [''2'', ''3'', ''10'']" by code_simp
  have r: "getResultFolders dir_3_10_2 = [''4'', ''30'', ''100'']" by code_simp
  have z: "\<not> isdir_polyMesh dir_3_10_2 ''0''" by code_simp
  note t = numbered_folders_partition [OF c]
  from t have d: "set (getSnappyHexMeshFolders dir_3_10_2) \<inter> set (getResultFolders dir_3_10_2) = {}"
    by (rule conjunct1)
  from t have n: "''0'' \<notin> set (getResultFolders dir_3_10_2)" by blast
  from t z have n': "''0'' \<notin> set (getSnappyHexMeshFolders dir_3_10_2)" by blast
  show ?thesis by (intro conjI c d m r n z n')
qed



section \<open>Saving a case\<close>

lemma create_subfolders_append:
  "create_subfolders env pd (xs @ ys) st =
     (case create_subfolders env pd xs st of
        (None, st') \<Rightarrow> create_subfolders env pd ys st'
      | (Some e, st') \<Rightarrow> (Some e, st'))"
  by (induction xs arbitrary: st) (auto simp: Let_def split: sum.splits)

lemma create_subfolders_calls:
  "prefix (calls st) (calls (snd (create_subfolders env pd fs st)))"
proof (induction fs arbitrary: st)
  case Nil
  then show ?case by simp
next
  case (Cons f fs)
  let ?p = "path_join env pd f"
  show ?case
  proof (cases "path_exists env (fsys st) ?p")
    case True
    with Cons show ?thesis by (simp add: Let_def)
  next
    case False
    show ?thesis
    proof (cases "makedirs env (fsys st) ?p")
      case (Inl e)
      with False show ?thesis by (simp add: Let_def)
    next
      case (Inr w')
      have "prefix (calls st) (calls st @ [Makedirs ?p])" by simp
      also have "prefix (calls st @ [Makedirs ?p])
          (calls (snd (create_subfolders env pd fs (st\<lparr>fsys := w', calls := calls st @ [Makedirs ?p]\<rparr>))))"
        using Cons [of "st\<lparr>fsys := w', calls := calls st @ [Makedirs ?p]\<rparr>"] by simp
      finally show ?thesis using False Inr by (simp add: Let_def)
    qed
  qed
qed

text \<open>
  Claim C7. In \<open>save\<close> with \<open>overwrite=True\<close>, an existing project directory is removed
  first, by a call that has no error result, and the subfolders are created after it. When
  \<open>os.makedirs\<close> fails on a subfolder that does not exist, \<open>save\<close> ends there: it raises
  \<open>IOError\<close> with the path and the message, and that one call of \<open>os.makedirs\<close> is the
  last call made.
\<close>

theorem save_overwrite_failure_is_fatal:
  assumes split: "SUBFOLDERS = created @ f # rest"
      and pd: "pd = projectDir env c" and p: "p = path_join env pd f"
      and before: "create_subfolders env pd created (delete_first env pd True st) = (None, st2)"
      and absent: "\<not> path_exists env (fsys st2) p"
      and fails: "makedirs env (fsys st2) p = Inl e"
  shows "save env c True st =
           (Some (IOError (''Butterfly failed to create '' @ p @ [CHR 0x0A] @ err_str e)),
            st2\<lparr>calls := calls st2 @ [Makedirs p]\<rparr>) \<and>
         (if path_exists env (fsys st) pd
          then delete_first env pd True st =
                 st\<lparr>fsys := rmtree_ignore_errors env (fsys st) pd, calls := calls st @ [Rmtree pd]\<rparr> \<and>
               prefix (calls st @ [Rmtree pd]) (calls st2)
          else delete_first env pd True st = st)"
proof -
  have "create_subfolders env pd (f # rest) st2 =
          (Some (IOError (''Butterfly failed to create '' @ p @ [CHR 0x0A] @ err_str e)),
           st2\<lparr>calls := calls st2 @ [Makedirs p]\<rparr>)"
    using absent fails p by (simp add: Let_def)
  with before have "create_subfolders env pd SUBFOLDERS (delete_first env pd True st) =
          (Some (IOError (''Butterfly failed to create '' @ p @ [CHR 0x0A] @ err_str e)),
           st2\<lparr>calls := calls st2 @ [Makedirs p]\<rparr>)"
    unfolding split create_subfolders_append by simp
  then have s: "save env c True st =
           (Some (IOError (''Butterfly failed to create '' @ p @ [CHR 0x0A] @ err_str e)),
            st2\<lparr>calls := calls st2 @ [Makedirs p]\<rparr>)"
    by (simp add: save_def Let_def pd)
  have "prefix (calls (delete_first env pd True st)) (calls st2)"
    using create_subfolders_calls [of "delete_first env pd True st" env pd created] before by simp
  then have d: "path_exists env (fsys st) pd \<Longrightarrow> prefix (calls st @ [Rmtree pd]) (calls st2)"
    by (simp add: delete_first_def)
  show ?thesis using s d by (simp add: delete_first_def)
qed

theorem save_overwrite_failure_is_fatal_witness:
  "SUBFOLDERS = [''0'', ''constant'', ''constant'' @ [CHR 0x5C] @ ''polyMesh'',
                 ''constant'' @ [CHR 0x5C] @ ''triSurface''] @ ''system'' # [''log''] \<and>
   path_exists env0 (fsys sys0) (projectDir env0 case0) \<and>
   save env0 case0 True sys0 =
     (Some (IOError (''Butterfly failed to create butterfly/duct/system'' @ [CHR 0x0A] @ ''Access is denied'')),
      \<lparr>fsys = [''butterfly/duct/0'', ''butterfly/duct/constant'',
               ''butterfly/duct/constant'' @ [CHR 0x5C] @ ''polyMesh'',
               ''butterfly/duct/constant'' @ [CHR 0x5C] @ ''triSurface''],
       calls = [Rmtree ''butterfly/duct'', Makedirs ''butterfly/duct/0'', Makedirs ''butterfly/duct/constant'',
                Makedirs (''butterfly/duct/constant'' @ [CHR 0x5C] @ ''polyMesh''),
                Makedirs (''butterfly/duct/constant'' @ [CHR 0x5C] @ ''triSurface''),
                Makedirs ''butterfly/duct/system''],
       printed = []\<rparr>)"
proof -
  let ?created = "[''0'', ''constant'', ''constant'' @ [CHR 0x5C] @ ''polyMesh'',
                 ''constant'' @ [CHR 0x5C] @ ''triSurface'']"
  let ?st2 = "\<lparr>fsys = [''butterfly/duct/0'', ''butterfly/duct/constant'',
               ''butterfly/duct/constant'' @ [CHR 0x5C] @ ''polyMesh'',
               ''butterfly/duct/constant'' @ [CHR 0x5C] @ ''triSurface''],
       calls = [Rmtree ''butterfly/duct'', Makedirs ''butterfly/duct/0'', Makedirs ''butterfly/duct/constant'',
                Makedirs (''butterfly/duct/constant'' @ [CHR 0x5C] @ ''polyMesh''),
                Makedirs (''butterfly/duct/constant'' @ [CHR 0x5C] @ ''triSurface'')],
       printed = []\<rparr> :: string list sys"
  have a: "SUBFOLDERS = ?created @ ''system'' # [''log'']" by (simp add: SUBFOLDERS_def)
  have pd: "''butterfly/duct'' = projectDir env0 case0" by (simp add: projectDir_def env0_def case0_def)
  have p: "''butterfly/duct/system'' = path_join env0 ''butterfly/duct'' ''system''" by (simp add: env0_def)
  have b: "create_subfolders env0 ''butterfly/duct'' ?created (delete_first env0 ''butterfly/duct'' True sys0) = (None, ?st2)"
    by code_simp
  have ab: "\<not> path_exists env0 (fsys ?st2) ''butterfly/duct/system''" by (simp add: env0_def)
  have f: "makedirs env0 (fsys ?st2) ''butterfly/duct/system'' = Inl (OSError ''Access is denied'')"
    by (simp add: env0_def)
  have ex: "path_exists env0 (fsys sys0) (projectDir env0 case0)"
    by (simp add: pd [symmetric]) (simp add: env0_def sys0_def)
  from save_overwrite_failure_is_fatal [OF a pd p b ab f]
  have s: "save env0 case0 True sys0 =
     (Some (IOError (''Butterfly failed to create butterfly/duct/system'' @ [CHR 0x0A] @ ''Access is denied'')),
      \<lparr>fsys = [''butterfly/duct/0'', ''butterfly/duct/constant'',
               ''butterfly/duct/constant'' @ [CHR 0x5C] @ ''polyMesh'',
               ''butterfly/duct/constant'' @ [CHR 0x5C] @ ''triSurface''],
       calls = [Rmtree ''butterfly/duct'', Makedirs ''butterfly/duct/0'', Makedirs ''butterfly/duct/constant'',
                Makedirs (''butterfly/duct/constant'' @ [CHR 0x5C] @ ''polyMesh''),
                Makedirs (''butterfly/duct/constant'' @ [CHR 0x5C] @ ''triSurface''),
                Makedirs ''butterfly/duct/system''],
       printed = []\<rparr>)" by simp
  show ?thesis by (intro conjI a ex s)
qed

section \<open>Freezing and restoring mesh snapshots\<close>

subsection \<open>Names as the file system compares them\<close>

lemma same_name_refl: "same_name pf a a"
  by (simp add: same_name_def)

lemma fold_case_other: "c \<notin> set ''ABCDEFGHIJKLMNOPQRSTUVWXYZ'' \<Longrightarrow> fold_case c = c"
proof -
  assume a: "c \<notin> set ''ABCDEFGHIJKLMNOPQRSTUVWXYZ''"
  have l: "length ''ABCDEFGHIJKLMNOPQRSTUVWXYZ'' = length ''abcdefghijklmnopqrstuvwxyz''"
    by simp
  from a have "map_of (zip ''ABCDEFGHIJKLMNOPQRSTUVWXYZ'' ''abcdefghijklmnopqrstuvwxyz'') c = None"
    unfolding map_of_zip_is_None [OF l] .
  then show ?thesis by (simp only: fold_case_def option.case)
qed

lemma fold_case_cases:
  "fold_case c = c \<or> fold_case c \<in> set ''abcdefghijklmnopqrstuvwxyz''"
proof (cases "map_of (zip ''ABCDEFGHIJKLMNOPQRSTUVWXYZ'' ''abcdefghijklmnopqrstuvwxyz'') c")
  case None
  then have "fold_case c = c" by (simp only: fold_case_def option.case)
  then show ?thesis ..
next
  case (Some l)
  then have "(c, l) \<in> set (zip ''ABCDEFGHIJKLMNOPQRSTUVWXYZ'' ''abcdefghijklmnopqrstuvwxyz'')"
    by (rule map_of_SomeD)
  then have "l \<in> set ''abcdefghijklmnopqrstuvwxyz''" by (rule set_zip_rightD)
  moreover from Some have "fold_case c = l" by (simp only: fold_case_def option.case)
  ultimately show ?thesis by blast
qed

lemma letter_not_digit: "l \<in> set ''abcdefghijklmnopqrstuvwxyz'' \<Longrightarrow> \<not> is_digit l"
  by (auto simp: is_digit_def)

lemma fold_case_to_digit: "is_digit (fold_case c) \<Longrightarrow> fold_case c = c"
  using fold_case_cases [of c] letter_not_digit [of "fold_case c"] by blast

lemma digit_not_upper: "is_digit c \<Longrightarrow> c \<notin> set ''ABCDEFGHIJKLMNOPQRSTUVWXYZ''"
  by (auto simp: is_digit_def)

lemma fold_case_digit: "is_digit c \<Longrightarrow> fold_case c = c"
  by (rule fold_case_other) (rule digit_not_upper)

lemma fold_case_org: "map fold_case ''.org'' = ''.org''"
proof -
  have "\<forall>c\<in>set ''.org''. c \<notin> set ''ABCDEFGHIJKLMNOPQRSTUVWXYZ''" by simp
  then have "\<forall>c\<in>set ''.org''. fold_case c = c" by (blast intro: fold_case_other)
  then show ?thesis by (intro map_idI) blast
qed

lemma name_key_digits: "py_isdigit s \<Longrightarrow> name_key pf s = s"
  by (auto simp: name_key_def py_isdigit_def list_all_iff fold_case_digit intro: map_idI)

lemma name_key_to_digits: "py_isdigit (name_key pf s) \<Longrightarrow> name_key pf s = s"
  by (auto simp: name_key_def py_isdigit_def list_all_iff fold_case_to_digit intro!: map_idI)

lemma name_key_org: "name_key pf (s @ ''.org'') = name_key pf s @ ''.org''"
  by (simp add: name_key_def fold_case_org del: list.map)

lemma endswith_org: "py_endswith (s @ ''.org'') ''.org''"
  unfolding py_endswith_def by (rule suffixI) simp

lemma endswith_key: "py_endswith s ''.org'' \<Longrightarrow> py_endswith (name_key pf s) ''.org''"
proof -
  assume "py_endswith s ''.org''"
  then obtain r where "s = r @ ''.org''" by (auto simp: py_endswith_def suffix_def)
  then show ?thesis by (simp add: name_key_org endswith_org)
qed

subsection \<open>One rename\<close>

lemma listed_iff: "n \<in> set (listdir d) \<longleftrightarrow> map_of d n \<noteq> None"
  by (simp add: listdir_def map_of_eq_None_iff)

lemma os_rename_plain:
  assumes "src \<in> set (listdir d)" and "dst \<notin> {[], ''.'', ''..''}"
      and "\<And>n. n \<in> set (listdir d) \<Longrightarrow> \<not> same_name pf n dst"
  shows "os_rename pf d src dst = Inr (map (ren src dst) d)"
proof -
  from assms(1) obtain x where x: "map_of d src = Some x" by (auto simp: listed_iff)
  have "\<not> same_name pf (fst e) dst" if "e \<in> set d" for e
    using that by (intro assms(3)) (simp add: listdir_def)
  then have "filter (\<lambda>(n, y). n \<noteq> src \<and> same_name pf n dst) d = []"
    by (auto simp: filter_empty_conv)
  with x assms(2) show ?thesis by (simp add: os_rename_def)
qed

lemma os_rename_Inl: "os_rename pf d src dst = Inl e \<Longrightarrow> \<exists>m. e = OSError m"
  by (auto simp: os_rename_def Let_def split: option.splits if_splits)

lemma os_rename_blocked:
  assumes "(n, y) \<in> set d" and "n \<noteq> src" and "same_name pf n dst"
      and "map_of d src = Some x" and "\<not> (replaces_existing pf \<and> replaceable x y)"
  shows "\<exists>m. os_rename pf d src dst = Inl (OSError m)"
proof -
  let ?w = "filter (\<lambda>(n, y). n \<noteq> src \<and> same_name pf n dst) d"
  from assms(1-3) have in_w: "(n, y) \<in> set ?w" by simp
  have ne: "?w \<noteq> []"
  proof
    assume "?w = []"
    with in_w show False by (simp only: list.set empty_iff)
  qed
  have "\<not> (replaces_existing pf \<and> list_all (\<lambda>(n, y). replaceable x y) ?w)"
  proof
    assume h: "replaces_existing pf \<and> list_all (\<lambda>(n, y). replaceable x y) ?w"
    then have "\<forall>e\<in>set ?w. (\<lambda>(n, y). replaceable x y) e" by (simp add: list_all_iff)
    with in_w have "replaceable x y" by fast
    with h assms(5) show False by blast
  qed
  with ne assms(4) show ?thesis by (auto simp: os_rename_def Let_def)
qed

lemma os_rename_Inr:
  assumes "os_rename pf d src dst = Inr d'"
  shows "d' = map (ren src dst) (filter (\<lambda>(n, y). n = src \<or> \<not> same_name pf n dst) d)"
proof -
  let ?w = "filter (\<lambda>(n, y). n \<noteq> src \<and> same_name pf n dst) d"
  have keep: "?w = [] \<Longrightarrow> filter (\<lambda>(n, y). n = src \<or> \<not> same_name pf n dst) d = d"
    by (auto simp: filter_empty_conv filter_id_conv)
  from assms show ?thesis
    by (auto simp: os_rename_def Let_def keep split: option.splits if_splits)
qed

lemma map_of_renamed:
  "k \<noteq> src \<Longrightarrow> \<not> same_name pf k dst \<Longrightarrow>
   map_of (map (ren src dst) (filter (\<lambda>(n, y). n = src \<or> \<not> same_name pf n dst) d)) k = map_of d k"
proof (induction d)
  case Nil
  then show ?case by simp
next
  case (Cons e d)
  from Cons.prems(2) have "k \<noteq> dst" by (auto simp: same_name_refl)
  with Cons show ?case by (cases e) (auto simp: ren_def)
qed

lemma listdir_ren: "listdir (map (ren src dst) d) = map (\<lambda>n. if n = src then dst else n) (listdir d)"
  by (induction d) (auto simp: ren_def listdir_def)

lemma ren_absent: "src \<notin> fst ` set q \<Longrightarrow> map (ren src dst) q = q"
  by (induction q) (auto simp: ren_def)

lemma has_polyMesh_not_empty: "has_polyMesh x \<Longrightarrow> \<exists>c cs. x = Dir (c # cs)"
proof (cases x)
  case (File c)
  assume "has_polyMesh x"
  with File show ?thesis by (simp add: has_polyMesh_def)
next
  case (Dir ys)
  assume "has_polyMesh x"
  with Dir show ?thesis by (cases ys) (auto simp: has_polyMesh_def isdir_def)
qed

lemma not_replaceable_by_dir: "replaceable (Dir cs) y \<Longrightarrow> y = Dir []"
proof (cases y)
  case (File c)
  assume "replaceable (Dir cs) y"
  with File show ?thesis by simp
next
  case (Dir ys)
  assume "replaceable (Dir cs) y"
  with Dir show ?thesis by (cases ys) auto
qed

subsection \<open>A restore that meets an existing name\<close>

text \<open>
  The step of the loop: a rename that the loop makes and that succeeds leaves alone an entry
  that a directory cannot replace.
\<close>

lemma rename_keeps_entry:
  assumes ok: "os_rename pf d g dst = Inr d'" and g: "isdir_polyMesh d g"
      and k: "map_of d k = Some y" and kg: "k \<noteq> g"
      and firm: "replaces_existing pf \<longrightarrow> y \<noteq> Dir []"
  shows "map_of d' k = Some y"
proof -
  from g obtain x where x: "map_of d g = Some x" and px: "has_polyMesh x"
    by (auto simp: isdir_polyMesh_def split: option.splits)
  from has_polyMesh_not_empty [OF px] obtain c cs where xd: "x = Dir (c # cs)" by blast
  have "\<not> same_name pf k dst"
  proof
    assume s: "same_name pf k dst"
    have "\<not> (replaces_existing pf \<and> replaceable x y)"
      using firm not_replaceable_by_dir [of "c # cs" y] by (auto simp: xd)
    from os_rename_blocked [OF map_of_SomeD [OF k] kg s x this] ok show False by auto
  qed
  with kg k show ?thesis unfolding os_rename_Inr [OF ok] by (simp add: map_of_renamed)
qed

lemma rename_back_error:
  assumes "f \<in> set fs" and "py_endswith f ''.org''" and "isdir_polyMesh d f"
      and "map_of d (replace_org f) = Some y" and "\<not> py_endswith (replace_org f) ''.org''"
      and "replaces_existing pf \<longrightarrow> y \<noteq> Dir []"
  shows "(\<exists>m. fst (rename_back pf fs d) = Some (OSError m)) \<and>
         map_of (snd (rename_back pf fs d)) (replace_org f) = Some y"
  using assms
proof (induction fs arbitrary: d)
  case Nil
  then show ?case by simp
next
  case (Cons g fs)
  let ?t = "replace_org f"
  from Cons.prems(3) obtain xf where xf: "map_of d f = Some xf" and pf': "has_polyMesh xf"
    by (auto simp: isdir_polyMesh_def split: option.splits)
  from has_polyMesh_not_empty [OF pf'] obtain c cs where xfd: "xf = Dir (c # cs)" by blast
  from Cons.prems(2,5) have tf: "?t \<noteq> f" by auto
  show ?case
  proof (cases "py_endswith g ''.org'' \<and> isdir_polyMesh d g")
    case False
    with Cons.prems have "g \<noteq> f" by blast
    with Cons.prems have "f \<in> set fs" by simp
    from Cons.IH [OF this Cons.prems(2-6)] False show ?thesis by auto
  next
    case True
    show ?thesis
    proof (cases "os_rename pf d g (replace_org g)")
      case (Inl e)
      with True os_rename_Inl [OF Inl] Cons.prems(4) show ?thesis by auto
    next
      case (Inr d')
      have gf: "g \<noteq> f"
      proof
        assume "g = f"
        have "\<not> (replaces_existing pf \<and> replaceable xf y)"
          using Cons.prems(6) not_replaceable_by_dir [of "c # cs" y] by (auto simp: xfd)
        from os_rename_blocked [OF map_of_SomeD [OF Cons.prems(4)] tf same_name_refl xf this]
        show False using Inr \<open>g = f\<close> by auto
      qed
      with Cons.prems have in_fs: "f \<in> set fs" by simp
      from True Cons.prems(5) have tg: "?t \<noteq> g" by auto
      have firm_f: "replaces_existing pf \<longrightarrow> xf \<noteq> Dir []" by (simp add: xfd)
      from True have gp: "isdir_polyMesh d g" by simp
      have "map_of d' f = Some xf"
        using Inr gp xf _ firm_f by (rule rename_keeps_entry) (use gf in simp)
      then have p3: "isdir_polyMesh d' f" using pf' by (simp add: isdir_polyMesh_def)
      have p4: "map_of d' ?t = Some y"
        using Inr gp Cons.prems(4) tg Cons.prems(6) by (rule rename_keeps_entry)
      from Cons.IH [OF in_fs Cons.prems(2) p3 p4 Cons.prems(5,6)] True Inr show ?thesis by simp
    qed
  qed
qed

subsection \<open>Freezing, in closed form\<close>

lemma rename_add_closed:
  assumes "distinct fs" and "set fs \<subseteq> set (listdir d)"
      and "\<And>f n. f \<in> set fs \<Longrightarrow> n \<in> set (listdir d) \<Longrightarrow> \<not> same_name pf n (f @ ''.org'')"
      and "\<And>f g. f \<in> set fs \<Longrightarrow> g \<in> set fs \<Longrightarrow> same_name pf (f @ ''.org'') (g @ ''.org'') \<Longrightarrow> f = g"
  shows "rename_add pf fs d = (None, map (frozen_entry (set fs)) d)"
  using assms
proof (induction fs arbitrary: d)
  case Nil
  have "map (frozen_entry {}) d = d" by (induction d) (auto simp: frozen_entry_def)
  then show ?case by simp
next
  case (Cons f fs)
  have special: "f @ ''.org'' \<notin> {[], ''.'', ''..''}" by auto
  have r: "os_rename pf d f (f @ ''.org'') = Inr (map (ren f (f @ ''.org'')) d)"
  proof (rule os_rename_plain [OF _ special])
    show "f \<in> set (listdir d)" using Cons.prems(2) by simp
    show "\<And>n. n \<in> set (listdir d) \<Longrightarrow> \<not> same_name pf n (f @ ''.org'')"
      using Cons.prems(3) [of f] by simp
  qed
  let ?d' = "map (ren f (f @ ''.org'')) d"
  have names: "set (listdir ?d') \<subseteq> insert (f @ ''.org'') (set (listdir d))"
    by (auto simp: listdir_ren)
  have 1: "distinct fs" using Cons.prems(1) by simp
  have 2: "set fs \<subseteq> set (listdir ?d')"
    using Cons.prems(1,2) by (auto simp: listdir_ren)
  have 3: "\<And>g n. g \<in> set fs \<Longrightarrow> n \<in> set (listdir ?d') \<Longrightarrow> \<not> same_name pf n (g @ ''.org'')"
  proof -
    fix g n assume g: "g \<in> set fs" and n: "n \<in> set (listdir ?d')"
    from g Cons.prems(1) have gf: "g \<noteq> f" by auto
    from n names consider "n = f @ ''.org''" | "n \<in> set (listdir d)" by blast
    then show "\<not> same_name pf n (g @ ''.org'')"
    proof cases
      case 1
      show ?thesis
      proof
        assume "same_name pf n (g @ ''.org'')"
        with 1 have "same_name pf (f @ ''.org'') (g @ ''.org'')" by simp
        from Cons.prems(4) [OF _ _ this] g gf show False by simp
      qed
    next
      case 2
      with Cons.prems(3) [of g n] g show ?thesis by simp
    qed
  qed
  have 4: "\<And>g h. g \<in> set fs \<Longrightarrow> h \<in> set fs \<Longrightarrow> same_name pf (g @ ''.org'') (h @ ''.org'') \<Longrightarrow> g = h"
    using Cons.prems(4) by simp
  have ih: "rename_add pf fs ?d' = (None, map (frozen_entry (set fs)) ?d')"
    by (rule Cons.IH [OF 1 2 3 4])
  have nf: "f @ ''.org'' \<notin> set fs"
  proof
    assume "f @ ''.org'' \<in> set fs"
    with Cons.prems(2) have "f @ ''.org'' \<in> set (listdir d)" by auto
    from Cons.prems(3) [OF _ this, of f] show False by (simp add: same_name_refl)
  qed
  have "map (frozen_entry (set fs)) ?d' = map (frozen_entry (set (f # fs))) d"
    using nf by (auto simp: frozen_entry_def ren_def)
  with r ih show ?case by simp
qed

subsection \<open>Restoring, in closed form\<close>

lemma map_of_middle: "n \<notin> fst ` set p \<Longrightarrow> map_of (p @ (n, x) # s) n = Some x"
  by (induction p) auto

lemma rename_back_closed:
  assumes "distinct (map fst (p @ s))"
      and "distinct (map (name_key pf) (targets s))"
      and "set (map (name_key pf) (targets s)) \<inter> set (map (name_key pf) (map fst (p @ s))) = {}"
      and "set (targets s) \<inter> {[], ''.'', ''..''} = {}"
  shows "rename_back pf (map fst s) (p @ s) = (None, p @ map restored_entry s)"
  using assms
proof (induction s arbitrary: p)
  case Nil
  then show ?case by simp
next
  case (Cons e s)
  obtain n x where e: "e = (n, x)" by (cases e)
  from Cons.prems(1) have np: "n \<notin> fst ` set p" and ns: "n \<notin> fst ` set s"
    by (auto simp: e)
  have "map_of (p @ e # s) n = Some x" unfolding e by (rule map_of_middle [OF np])
  then have look: "isdir_polyMesh (p @ e # s) n = has_polyMesh x"
    by (simp only: isdir_polyMesh_def option.case)
  show ?case
  proof (cases "is_frozen e")
    case False
    then have ts: "targets (e # s) = targets s" by (simp add: targets_def)
    have cond: "\<not> (py_endswith n ''.org'' \<and> isdir_polyMesh (p @ e # s) n)"
      using False by (simp add: look) (simp add: is_frozen_def e)
    have step: "rename_back pf (map fst (e # s)) (p @ e # s) = rename_back pf (map fst s) (p @ e # s)"
      using cond by (auto simp: e)
    have re: "restored_entry e = e" using False by (simp add: restored_entry_def)
    have "rename_back pf (map fst s) ((p @ [e]) @ s) = (None, (p @ [e]) @ map restored_entry s)"
      using Cons.prems by (intro Cons.IH) (simp_all add: ts)
    then show ?thesis unfolding step by (simp add: re)
  next
    case True
    let ?t = "replace_org n"
    have ts: "targets (e # s) = ?t # targets s" using True by (simp add: targets_def e)
    have cond: "py_endswith n ''.org'' \<and> isdir_polyMesh (p @ e # s) n"
      using True by (simp add: look) (simp add: is_frozen_def e)
    from Cons.prems(3) have tk: "name_key pf ?t \<notin> name_key pf ` set (listdir (p @ e # s))"
      by (auto simp: ts listdir_def)
    then have tn: "\<And>m. m \<in> set (listdir (p @ e # s)) \<Longrightarrow> \<not> same_name pf m ?t"
      unfolding same_name_def by (metis imageI)
    from tn [of ?t] have tnew: "?t \<notin> set (listdir (p @ e # s))"
      using same_name_refl [of pf ?t] by blast
    from Cons.prems(4) have tsp: "?t \<notin> {[], ''.'', ''..''}" by (auto simp: ts)
    have "n \<in> set (listdir (p @ e # s))" by (simp add: listdir_def e)
    from os_rename_plain [OF this tsp tn]
    have r: "os_rename pf (p @ e # s) n ?t = Inr (map (ren n ?t) (p @ e # s))" .
    have m: "map (ren n ?t) (p @ e # s) = (p @ [(?t, x)]) @ s"
      by (simp add: ren_absent [OF np] ren_absent [OF ns]) (simp add: ren_def e)
    have 1: "distinct (map fst ((p @ [(?t, x)]) @ s))"
      using Cons.prems(1) tnew by (auto simp: e listdir_def)
    have 2: "distinct (map (name_key pf) (targets s))" using Cons.prems(2) by (simp add: ts)
    have 3: "set (map (name_key pf) (targets s)) \<inter>
             set (map (name_key pf) (map fst ((p @ [(?t, x)]) @ s))) = {}"
      using Cons.prems(2,3) by (auto simp: ts)
    have 4: "set (targets s) \<inter> {[], ''.'', ''..''} = {}"
      using Cons.prems(4) by (auto simp: ts)
    have "rename_back pf (map fst s) ((p @ [(?t, x)]) @ s) =
            (None, (p @ [(?t, x)]) @ map restored_entry s)"
      by (rule Cons.IH [OF 1 2 3 4])
    moreover have "rename_back pf (map fst (e # s)) (p @ e # s) =
            rename_back pf (map fst s) ((p @ [(?t, x)]) @ s)"
    proof -
      from r m have "os_rename pf (p @ e # s) n ?t = Inr ((p @ [(?t, x)]) @ s)" by (simp only:)
      with cond show ?thesis by (simp add: e del: append_assoc)
    qed
    moreover have "restored_entry e = (?t, x)" using True by (simp add: restored_entry_def e)
    ultimately show ?thesis by simp
  qed
qed

subsection \<open>The round trip\<close>

lemma replace_org_other: "c \<noteq> CHR ''.'' \<Longrightarrow> replace_org (c # cs) = c # replace_org cs"
proof -
  assume "c \<noteq> CHR ''.''"
  then have "take 4 (c # cs) \<noteq> ''.org''" by (auto simp: take_Cons')
  then show ?thesis by (simp only: replace_org.simps if_False)
qed

lemma replace_org_no_dot: "CHR ''.'' \<notin> set s \<Longrightarrow> replace_org (s @ ''.org'') = s"
proof (induction s)
  case Nil
  show ?case by simp
next
  case (Cons c s)
  then have c: "c \<noteq> CHR ''.''" and ih: "replace_org (s @ ''.org'') = s" by auto
  from c have "replace_org (c # (s @ ''.org'')) = c # replace_org (s @ ''.org'')"
    by (rule replace_org_other)
  with ih show ?case by (simp only: append_Cons)
qed

lemma is_digit_not_dot: "is_digit c \<Longrightarrow> c \<noteq> CHR ''.''"
  by (auto simp: is_digit_def)

lemma py_isdigit_no_dot: "py_isdigit s \<Longrightarrow> CHR ''.'' \<notin> set s"
  by (auto simp: py_isdigit_def list_all_iff dest: is_digit_not_dot)

lemma py_isdigit_not_special: "py_isdigit s \<Longrightarrow> s \<notin> {[], ''.'', ''..''}"
  using py_isdigit_no_dot [of s] by (auto simp: py_isdigit_def)

lemma digits_differ_from_frozen: "py_isdigit n \<Longrightarrow> n \<noteq> s @ ''.org''"
  using py_isdigit_no_dot [of n] by auto

lemma not_frozen_name:
  "no_frozen_names pf d \<Longrightarrow> n \<in> set (listdir d) \<Longrightarrow> \<not> py_endswith (name_key pf n) ''.org''"
  by (simp add: no_frozen_names_def list_all_iff)

lemma frozen_roundtrip_entry:
  assumes dist: "distinct (listdir d)" and nf: "no_frozen_names pf d"
      and M: "M = set (mesh_folder_names d)" and e: "e \<in> set d"
  shows "is_frozen (frozen_entry M e) \<longleftrightarrow> fst e \<in> M"
    and "restored_entry (frozen_entry M e) = e"
    and "fst e \<in> M \<Longrightarrow> replace_org (fst (frozen_entry M e)) = fst e"
proof -
  obtain n x where nx: "e = (n, x)" by (cases e)
  from e have listed: "n \<in> set (listdir d)" by (auto simp: nx listdir_def intro: rev_image_eqI)
  from dist e have look: "map_of d n = Some x" by (simp add: nx listdir_def)
  from not_frozen_name [OF nf listed] have ne: "\<not> py_endswith n ''.org''"
    using endswith_key [of n pf] by blast
  have inM: "n \<in> M \<Longrightarrow> py_isdigit n \<and> has_polyMesh x"
    using look by (auto simp: M mesh_folder_names_def isdir_polyMesh_def)
  have rep: "n \<in> M \<Longrightarrow> replace_org (n @ ''.org'') = n"
    using inM by (intro replace_org_no_dot py_isdigit_no_dot) simp
  show 1: "is_frozen (frozen_entry M e) \<longleftrightarrow> fst e \<in> M"
    using ne inM by (auto simp: nx frozen_entry_def is_frozen_def endswith_org)
  show "fst e \<in> M \<Longrightarrow> replace_org (fst (frozen_entry M e)) = fst e"
    using rep by (simp add: nx frozen_entry_def)
  show "restored_entry (frozen_entry M e) = e"
  proof (cases "n \<in> M")
    case True
    with 1 have "is_frozen (frozen_entry M e)" by (simp add: nx)
    then show ?thesis using True rep by (simp add: restored_entry_def) (simp add: nx frozen_entry_def)
  next
    case False
    with 1 have "\<not> is_frozen (frozen_entry M e)" by (simp add: nx)
    then show ?thesis using False by (simp add: restored_entry_def) (simp add: nx frozen_entry_def)
  qed
qed

lemma freeze_then_restore:
  assumes dist: "distinct (listdir d)" and can: "numbered_names_canonical d"
      and nf: "no_frozen_names pf d"
  shows "renameSnappyHexMeshFolders pf d True = (None, frozen d)"
    and "renameSnappyHexMeshFolders pf (frozen d) False = (None, d)"
proof -
  define M where "M = set (mesh_folder_names d)"
  define fs where "fs = getSnappyHexMeshFolders d"
  define d1 where "d1 = map (frozen_entry M) d"
  have d1: "frozen d = d1" by (simp add: frozen_def d1_def M_def)
  have ms: "mset fs = mset (mesh_folder_names d)"
    unfolding fs_def using can by (rule mset_getSnappyHexMeshFolders)
  then have sfs: "set fs = M" unfolding M_def by (rule mset_eq_setD)
  have sub: "M \<subseteq> set (listdir d)" by (auto simp: M_def mesh_folder_names_def)
  have dig: "\<And>n. n \<in> M \<Longrightarrow> py_isdigit n" by (auto simp: M_def mesh_folder_names_def)
  have key: "\<And>n. n \<in> M \<Longrightarrow> name_key pf n = n" using dig by (simp add: name_key_digits)
  note noorgk = not_frozen_name [OF nf]
  have fresh: "\<not> same_name pf n (f @ ''.org'')" if "n \<in> set (listdir d)" for n f
  proof
    assume "same_name pf n (f @ ''.org'')"
    then have "name_key pf n = name_key pf f @ ''.org''" by (simp add: same_name_def name_key_org)
    then have "py_endswith (name_key pf n) ''.org''" by (simp add: endswith_org)
    with noorgk [OF that] show False ..
  qed
  have fresh': "n @ ''.org'' \<notin> set (listdir d)" for n
    using fresh [of "n @ ''.org''" n] by (auto simp: same_name_refl)
  \<comment> \<open>freezing\<close>
  have "distinct (mesh_folder_names d)" using dist by (simp add: mesh_folder_names_def)
  with mset_eq_imp_distinct_iff [OF ms] have dfs: "distinct fs" by (simp only:)
  have "rename_add pf fs d = (None, map (frozen_entry (set fs)) d)"
  proof (rule rename_add_closed [OF dfs])
    show "set fs \<subseteq> set (listdir d)" using sub sfs by simp
    show "\<And>f n. f \<in> set fs \<Longrightarrow> n \<in> set (listdir d) \<Longrightarrow> \<not> same_name pf n (f @ ''.org'')"
      using fresh by simp
    show "\<And>f g. f \<in> set fs \<Longrightarrow> g \<in> set fs \<Longrightarrow> same_name pf (f @ ''.org'') (g @ ''.org'') \<Longrightarrow> f = g"
    proof -
      fix f g assume f: "f \<in> set fs" and g: "g \<in> set fs"
        and s: "same_name pf (f @ ''.org'') (g @ ''.org'')"
      from s have "name_key pf f = name_key pf g" by (simp add: same_name_def name_key_org)
      with f g sfs key show "f = g" by simp
    qed
  qed
  then show "renameSnappyHexMeshFolders pf d True = (None, frozen d)"
    by (simp add: renameSnappyHexMeshFolders_def fs_def [symmetric] sfs d1 d1_def)
  \<comment> \<open>restoring\<close>
  note entry = frozen_roundtrip_entry [OF dist nf M_def]
  have names1: "map fst d1 = map (\<lambda>n. if n \<in> M then n @ ''.org'' else n) (listdir d)"
    by (auto simp: d1_def listdir_def frozen_entry_def)
  have inj: "inj_on (\<lambda>n. if n \<in> M then n @ ''.org'' else n) (set (listdir d))"
  proof (rule inj_onI)
    fix a b assume a: "a \<in> set (listdir d)" and b: "b \<in> set (listdir d)"
      and eq: "(if a \<in> M then a @ ''.org'' else a) = (if b \<in> M then b @ ''.org'' else b)"
    show "a = b"
    proof (cases "a \<in> M"; cases "b \<in> M")
      assume "a \<in> M" "b \<notin> M"
      with eq have "b = a @ ''.org''" by simp
      with b fresh' show ?thesis by blast
    next
      assume "a \<notin> M" "b \<in> M"
      with eq have "a = b @ ''.org''" by simp
      with a fresh' show ?thesis by blast
    qed (use eq in simp_all)
  qed
  have 1: "distinct (map fst ([] @ d1))"
    using dist inj by (simp add: names1 distinct_map)
  have "targets d1 = map (\<lambda>e. replace_org (fst (frozen_entry M e))) (filter (\<lambda>e. is_frozen (frozen_entry M e)) d)"
    by (simp add: targets_def d1_def filter_map comp_def)
  also have "\<dots> = map (\<lambda>e. replace_org (fst (frozen_entry M e))) (filter (\<lambda>e. fst e \<in> M) d)"
    by (rule arg_cong [where f = "map _"], rule filter_cong) (simp_all add: entry(1))
  also have "\<dots> = map fst (filter (\<lambda>e. fst e \<in> M) d)"
    by (rule map_cong) (simp_all add: entry(3))
  finally have tg: "targets d1 = map fst (filter (\<lambda>e. fst e \<in> M) d)" .
  have tM: "set (targets d1) \<subseteq> M" unfolding tg by auto
  have tk: "map (name_key pf) (targets d1) = targets d1"
    using tM key by (intro map_idI) blast
  have 2: "distinct (map (name_key pf) (targets d1))"
    unfolding tk unfolding tg using dist by (simp add: listdir_def distinct_map_filter)
  have 3: "set (map (name_key pf) (targets d1)) \<inter> set (map (name_key pf) (map fst ([] @ d1))) = {}"
  proof -
    have "t \<notin> set (map (name_key pf) (map fst d1))" if "t \<in> M" for t
    proof
      assume "t \<in> set (map (name_key pf) (map fst d1))"
      then obtain m where m: "m \<in> set (listdir d)"
        and t: "t = name_key pf (if m \<in> M then m @ ''.org'' else m)"
        by (auto simp: names1)
      show False
      proof (cases "m \<in> M")
        case True
        with t have "t = name_key pf m @ ''.org''" by (simp add: name_key_org)
        with digits_differ_from_frozen [OF dig [OF that]] show False by blast
      next
        case False
        with t have tm: "t = name_key pf m" by simp
        with dig [OF that] have "py_isdigit (name_key pf m)" by simp
        then have "name_key pf m = m" by (rule name_key_to_digits)
        with tm that False show False by simp
      qed
    qed
    with tM show ?thesis unfolding tk by auto
  qed
  have 4: "set (targets d1) \<inter> {[], ''.'', ''..''} = {}"
  proof -
    have "t \<notin> {[], ''.'', ''..''}" if "t \<in> M" for t
      using dig [OF that] by (rule py_isdigit_not_special)
    with tM show ?thesis by blast
  qed
  have "rename_back pf (map fst d1) ([] @ d1) = (None, [] @ map restored_entry d1)"
    by (rule rename_back_closed [OF 1 2 3 4])
  moreover have "map restored_entry d1 = d"
    unfolding d1_def map_map comp_def by (rule map_idI) (simp add: entry(2))
  ultimately have "rename_back pf (listdir d1) d1 = (None, d)" by (simp add: listdir_def)
  then show "renameSnappyHexMeshFolders pf (frozen d) False = (None, d)"
    by (simp add: renameSnappyHexMeshFolders_def d1)
qed

text \<open>
  Claim C5 fails as stated, in four ways. With a snapshot \<open>1\<close> and a folder \<open>2.org\<close> frozen
  earlier, freezing and restoring leaves the names \<open>1\<close> and \<open>2\<close>, not \<open>1\<close> and \<open>2.org\<close>.
  With a snapshot \<open>01\<close> beside a result folder \<open>1\<close>, freezing renames the result folder,
  which restoring does not rename back. Where the file system ignores case, a folder
  \<open>1.ORG\<close> makes freezing the snapshot \<open>1\<close> fail. And where \<open>os.rename\<close> replaces an empty
  directory, restoring \<open>1.org\<close> onto an existing empty folder \<open>1\<close> raises nothing and the
  existing folder is gone.
\<close>

theorem freeze_restore_counterexample:
  "renameSnappyHexMeshFolders posix dir_prefrozen True =
     (None, [(''1.org'', mesh_folder), (''2.org'', mesh_folder)]) \<and>
   renameSnappyHexMeshFolders posix [(''1.org'', mesh_folder), (''2.org'', mesh_folder)] False =
     (None, [(''1'', mesh_folder), (''2'', mesh_folder)]) \<and>
   ''2.org'' \<in> set (listdir dir_prefrozen) \<and>
   ''2.org'' \<notin> set (listdir [(''1'', mesh_folder), (''2'', mesh_folder)]) \<and>
   renameSnappyHexMeshFolders posix dir_leading_zero True =
     (None, [(''01'', mesh_folder), (''1.org'', Dir [])]) \<and>
   renameSnappyHexMeshFolders posix [(''01'', mesh_folder), (''1.org'', Dir [])] False =
     (None, [(''01'', mesh_folder), (''1.org'', Dir [])]) \<and>
   ''1'' \<in> set (listdir dir_leading_zero) \<and>
   ''1'' \<notin> set (listdir [(''01'', mesh_folder), (''1.org'', Dir [])]) \<and>
   renameSnappyHexMeshFolders windows dir_case True =
     (Some (Exception (''Failed to rename snappyHexMesh folders: '' @
                       ''Cannot create a file when that file already exists'')), dir_case) \<and>
   map_of dir_empty_target ''1'' = Some (Dir []) \<and>
   renameSnappyHexMeshFolders posix dir_empty_target False = (None, [(''1'', mesh_folder)])"
  by code_simp

text \<open>
  Claim C5, amended. On every platform: in a project directory where no name ends in
  \<open>.org\<close> (as the file system compares names) and every numbered name is written without
  leading zeros, freezing succeeds and leaves exactly the mesh snapshots renamed, and
  restoring that directory succeeds and gives back the directory it started from, so the
  same names. And when restoring reaches a frozen snapshot whose restored name exists
  already as a file or as a folder that is not empty (or as anything at all where
  \<open>os.rename\<close> replaces nothing), and that name does not itself end in \<open>.org\<close>, it raises
  \<open>OSError\<close> and the existing entry is left as it was.
\<close>

theorem freeze_restore_roundtrip:
  "(distinct (listdir d) \<and> numbered_names_canonical d \<and> no_frozen_names pf d \<longrightarrow>
      renameSnappyHexMeshFolders pf d True = (None, frozen d) \<and>
      renameSnappyHexMeshFolders pf (frozen d) False = (None, d)) \<and>
   (f \<in> set (listdir d') \<and> py_endswith f ''.org'' \<and> isdir_polyMesh d' f \<and>
    map_of d' (replace_org f) = Some y \<and> \<not> py_endswith (replace_org f) ''.org'' \<and>
    (replaces_existing pf' \<longrightarrow> y \<noteq> Dir []) \<longrightarrow>
      (\<exists>m. fst (renameSnappyHexMeshFolders pf' d' False) = Some (OSError m)) \<and>
      map_of (snd (renameSnappyHexMeshFolders pf' d' False)) (replace_org f) = Some y)"
proof (intro conjI impI)
  assume "distinct (listdir d) \<and> numbered_names_canonical d \<and> no_frozen_names pf d"
  then have a: "distinct (listdir d)" "numbered_names_canonical d" "no_frozen_names pf d"
    by simp_all
  show "renameSnappyHexMeshFolders pf d True = (None, frozen d)"
    by (rule freeze_then_restore(1) [OF a])
  show "renameSnappyHexMeshFolders pf (frozen d) False = (None, d)"
    by (rule freeze_then_restore(2) [OF a])
next
  assume h: "f \<in> set (listdir d') \<and> py_endswith f ''.org'' \<and> isdir_polyMesh d' f \<and>
    map_of d' (replace_org f) = Some y \<and> \<not> py_endswith (replace_org f) ''.org'' \<and>
    (replaces_existing pf' \<longrightarrow> y \<noteq> Dir [])"
  then have b: "f \<in> set (listdir d')" "py_endswith f ''.org''" "isdir_polyMesh d' f"
    "map_of d' (replace_org f) = Some y" "\<not> py_endswith (replace_org f) ''.org''"
    "replaces_existing pf' \<longrightarrow> y \<noteq> Dir []"
    by simp_all
  note r = rename_back_error [OF b]
  from r show "\<exists>m. fst (renameSnappyHexMeshFolders pf' d' False) = Some (OSError m)"
    by (simp add: renameSnappyHexMeshFolders_def)
  from r show "map_of (snd (renameSnappyHexMeshFolders pf' d' False)) (replace_org f) = Some y"
    by (simp add: renameSnappyHexMeshFolders_def)
qed

theorem freeze_restore_roundtrip_witness:
  "distinct (listdir dir_3_10_2) \<and> numbered_names_canonical dir_3_10_2 \<and>
   no_frozen_names windows dir_3_10_2 \<and>
   renameSnappyHexMeshFolders windows dir_3_10_2 True = (None, frozen dir_3_10_2) \<and>
   renameSnappyHexMeshFolders windows (frozen dir_3_10_2) False = (None, dir_3_10_2) \<and>
   listdir (frozen dir_3_10_2) =
     [''3.org'', ''30'', ''10.org'', ''0'', ''4'', ''2.org'', ''100'', ''log''] \<and>
   ''1.org'' \<in> set (listdir dir_collision) \<and> py_endswith ''1.org'' ''.org'' \<and>
   isdir_polyMesh dir_collision ''1.org'' \<and> replace_org ''1.org'' = ''1'' \<and>
   map_of dir_collision ''1'' = Some (Dir [(''U'', File ''...'')]) \<and>
   \<not> py_endswith ''1'' ''.org'' \<and> replaces_existing posix \<and>
   Dir [(''U'', File ''...'')] \<noteq> Dir [] \<and>
   (\<exists>m. fst (renameSnappyHexMeshFolders posix dir_collision False) = Some (OSError m)) \<and>
   map_of (snd (renameSnappyHexMeshFolders posix dir_collision False)) ''1'' =
     Some (Dir [(''U'', File ''...'')])"
proof -
  have a1: "distinct (listdir dir_3_10_2)" by code_simp
  have a2: "numbered_names_canonical dir_3_10_2" by code_simp
  have a3: "no_frozen_names windows dir_3_10_2" by code_simp
  have l: "listdir (frozen dir_3_10_2) =
     [''3.org'', ''30'', ''10.org'', ''0'', ''4'', ''2.org'', ''100'', ''log'']" by code_simp
  have b1: "''1.org'' \<in> set (listdir dir_collision)" by code_simp
  have b2: "py_endswith ''1.org'' ''.org''" by code_simp
  have b3: "isdir_polyMesh dir_collision ''1.org''" by code_simp
  have r: "replace_org ''1.org'' = ''1''" by code_simp
  have b4: "map_of dir_collision ''1'' = Some (Dir [(''U'', File ''...'')])" by code_simp
  have b5: "\<not> py_endswith ''1'' ''.org''" by code_simp
  have b6: "replaces_existing posix" by code_simp
  have b7: "Dir [(''U'', File ''...'')] \<noteq> Dir []" by simp
  note t = freeze_restore_roundtrip
    [of dir_3_10_2 windows "''1.org''" dir_collision "Dir [(''U'', File ''...'')]" posix,
     unfolded r]
  from t a1 a2 a3 have c1: "renameSnappyHexMeshFolders windows dir_3_10_2 True =
      (None, frozen dir_3_10_2)" by blast
  from t a1 a2 a3 have c2: "renameSnappyHexMeshFolders windows (frozen dir_3_10_2) False =
      (None, dir_3_10_2)" by blast
  from t b1 b2 b3 b4 b5 b7
  have c3: "\<exists>m. fst (renameSnappyHexMeshFolders posix dir_collision False) = Some (OSError m)"
    by blast
  from t b1 b2 b3 b4 b5 b7
  have c4: "map_of (snd (renameSnappyHexMeshFolders posix dir_collision False)) ''1'' =
     Some (Dir [(''U'', File ''...'')])"
    by blast
  show ?thesis by (intro conjI a1 a2 a3 c1 c2 l b1 b2 b3 r b4 b5 b6 b7 c3 c4)
qed


end
